theory Spec2Isabelle
  imports Complex_Main
begin

section \<open>Exceptions, strings and the effect trace\<close>

text \<open>
  Python exceptions are values. The class decides which \<open>except\<close> clause catches one:
  \<open>TelegramBadRequest\<close> is aiogram's structured rejection, \<open>ValueError\<close>,
  \<open>IndexError\<close> and \<open>OverflowError\<close> are the builtins the payment handler can meet,
  \<open>OSError\<close> is what the file system raises, \<open>OtherException\<close> stands for every
  other subclass of \<open>Exception\<close> (network and attribute errors among them) and \<open>NonException\<close> for the subclasses of
  \<open>BaseException\<close> outside \<open>Exception\<close> (task cancellation, interpreter exit), which
  no \<open>except Exception\<close> clause catches. The string is \<open>str(e)\<close>.
\<close>

datatype exn_class =
  TelegramBadRequest | ValueError | IndexError | OverflowError | OSError | OtherException
  | NonException

datatype pyexn = PyExn exn_class string

fun class_of :: "pyexn \<Rightarrow> exn_class" where
  "class_of (PyExn c s) = c"

fun str_of :: "pyexn \<Rightarrow> string" where
  "str_of (PyExn c s) = s"

definition is_Exception :: "pyexn \<Rightarrow> bool" where
  "is_Exception e = (class_of e \<noteq> NonException)"

text \<open>
  \<open>str.lower()\<close> on code points below 256 (a \<open>char\<close> is read as one code point):
  the ASCII capitals and the Latin-1 capitals other than the multiplication sign move
  up by 32.
\<close>

definition lower_char :: "char \<Rightarrow> char" where
  "lower_char c =
     (let n = (of_char c :: nat)
      in if (65 \<le> n \<and> n \<le> 90) \<or> (192 \<le> n \<and> n \<le> 222 \<and> n \<noteq> 215)
         then char_of (n + 32) else c)"

definition lower :: "string \<Rightarrow> string" where
  "lower s = map lower_char s"

text \<open>\<open>pat in s\<close> on strings: \<open>pat\<close> occurs in \<open>s\<close> as a contiguous run.\<close>

definition startswith :: "string \<Rightarrow> string \<Rightarrow> bool" where
  "startswith s pat = (take (length pat) s = pat)"

fun contains :: "string \<Rightarrow> string \<Rightarrow> bool" where
  "contains [] pat = (pat = [])"
| "contains (c # cs) pat = (startswith (c # cs) pat \<or> contains cs pat)"

datatype level = Debug | Warning | Error

datatype log_arg = AStr string | AInt int

datatype link_preview_options = LinkPreviewOptions bool

text \<open>
  The operations of the chat surface, each with the arguments the source passes.
  The reply markup is an opaque value of type \<open>'k\<close>.
\<close>

datatype 'k call =
    EditMedia string string "string option" "'k option"
  | EditCaption string "'k option" "string option"
  | EditText string "'k option" "string option" "link_preview_options option"
  | SendPhoto int string string "'k option" "string option"
  | SendMessage int string "'k option" "string option" "link_preview_options option"

text \<open>
  What a call of the renderer does is recorded in order: every operation on the chat
  surface with its outcome (\<open>None\<close> when it returned, the exception when it raised) and
  every log record with its severity, format string and arguments.
\<close>

datatype 'k effect =
    Call "'k call" "pyexn option"
  | Log level string "log_arg list"

fun calls_of :: "'k effect list \<Rightarrow> 'k call list" where
  "calls_of [] = []"
| "calls_of (Call c r # es) = c # calls_of es"
| "calls_of (Log l f as # es) = calls_of es"

fun surface_effects :: "'k effect list \<Rightarrow> 'k effect list" where
  "surface_effects [] = []"
| "surface_effects (Call c r # es) = Call c r # surface_effects es"
| "surface_effects (Log l f as # es) = surface_effects es"

text \<open>
  The chat surface is an oracle: it answers the list of the calls made so far, the
  current one last. So a second call with the same arguments may end differently.
\<close>

type_synonym 'k surface = "'k call list \<Rightarrow> pyexn option"

definition perform :: "'k surface \<Rightarrow> 'k call \<Rightarrow> 'k effect list \<Rightarrow> pyexn option \<times> 'k effect list" where
  "perform srf c tr = (let r = srf (calls_of tr @ [c]) in (r, tr @ [Call c r]))"

definition logging :: "level \<Rightarrow> string \<Rightarrow> log_arg list \<Rightarrow> 'k effect list \<Rightarrow> 'k effect list" where
  "logging l fmt as tr = tr @ [Log l fmt as]"

section \<open>MenuRenderer: bot/utils/menu\_renderer.py\<close>

record message =
  message_id :: int
  chat_id :: int
  photo :: "string list option"

text \<open>\<open>if message.photo\<close>: an absent or empty list of photo sizes is falsy.\<close>

definition photo_truthy :: "message \<Rightarrow> bool" where
  "photo_truthy m = (case photo m of None \<Rightarrow> False | Some ps \<Rightarrow> ps \<noteq> [])"

definition MENU_IMAGES_ROOT :: string where
  "MENU_IMAGES_ROOT = ''/app/bot/static/images''"

text \<open>
  \<open>MENU_IMAGES_ROOT / image_filename\<close>, as the string the source logs and opens, for a
  relative file name in normal form (pathlib's treatment of an absolute name, of dot
  components and of repeated slashes is not modelled).
\<close>

definition image_path_of :: "string \<Rightarrow> string" where
  "image_path_of image_filename = MENU_IMAGES_ROOT @ ''/'' @ image_filename"

text \<open>
  \<open>Path.is_file()\<close>: the file system is an arbitrary function on these strings. The test
  returns a boolean, or raises: \<open>stat\<close> errors other than a missing file or directory
  (a name that is too long, a directory that may not be searched) are raised as
  \<open>OSError\<close> by CPython up to version 3.12.
\<close>

type_synonym file_test = "string \<Rightarrow> pyexn + bool"

type_synonym 'k outcome = "(pyexn + bool) \<times> 'k effect list"

text \<open>Lines 107 to 121: the edit of the text body, the last stage.\<close>

definition edit_text_stage ::
  "'k surface \<Rightarrow> message \<Rightarrow> string \<Rightarrow> 'k option \<Rightarrow> string option \<Rightarrow>
   link_preview_options option \<Rightarrow> 'k effect list \<Rightarrow> 'k outcome" where
  "edit_text_stage srf m text reply_markup parse_mode link_preview_options tr =
     (case perform srf (EditText text reply_markup parse_mode link_preview_options) tr of
        (None, tr1) \<Rightarrow> (Inr False, tr1)
      | (Some text_error, tr1) \<Rightarrow>
          if class_of text_error = TelegramBadRequest then
            (if contains (lower (str_of text_error)) ''message is not modified''
             then (Inr False,
                   logging Debug ''Menu text not modified for message %s''
                     [AInt (message_id m)] tr1)
             else (Inr False,
                   logging Error ''Failed to edit menu text: %s''
                     [AStr (str_of text_error)] tr1))
          else if is_Exception text_error then
            (Inr False,
             logging Error ''Unexpected error while editing menu text: %s''
               [AStr (str_of text_error)] tr1)
          else (Inl text_error, tr1))"

text \<open>Lines 84 to 105: the caption of a message that already has a photo, then the text.\<close>

definition existing_caption_stage ::
  "'k surface \<Rightarrow> message \<Rightarrow> string \<Rightarrow> 'k option \<Rightarrow> string option \<Rightarrow>
   link_preview_options option \<Rightarrow> 'k effect list \<Rightarrow> 'k outcome" where
  "existing_caption_stage srf m text reply_markup parse_mode link_preview_options tr =
     (if photo_truthy m then
        (case perform srf (EditCaption text reply_markup parse_mode) tr of
           (None, tr1) \<Rightarrow> (Inr True, tr1)
         | (Some caption_error, tr1) \<Rightarrow>
             if class_of caption_error = TelegramBadRequest then
               (if contains (lower (str_of caption_error)) ''not modified''
                then edit_text_stage srf m text reply_markup parse_mode link_preview_options
                       (logging Debug ''Menu caption not modified for message %s''
                          [AInt (message_id m)] tr1)
                else edit_text_stage srf m text reply_markup parse_mode link_preview_options
                       (logging Warning ''Failed to edit existing menu caption: %s''
                          [AStr (str_of caption_error)] tr1))
             else if is_Exception caption_error then
               edit_text_stage srf m text reply_markup parse_mode link_preview_options
                 (logging Error ''Unexpected error while editing existing menu caption: %s''
                    [AStr (str_of caption_error)] tr1)
             else (Inl caption_error, tr1))
      else edit_text_stage srf m text reply_markup parse_mode link_preview_options tr)"

text \<open>
  Lines 53 to 72: inside the handler of a rejected media edit, the caption of a message
  that has a photo. Falling out of the handler leads to line 84.
\<close>

definition media_rejected_handler ::
  "'k surface \<Rightarrow> message \<Rightarrow> string \<Rightarrow> string \<Rightarrow> 'k option \<Rightarrow> string option \<Rightarrow>
   link_preview_options option \<Rightarrow> 'k effect list \<Rightarrow> 'k outcome" where
  "media_rejected_handler srf m image_path text reply_markup parse_mode link_preview_options tr =
     (if photo_truthy m then
        (case perform srf (EditCaption text reply_markup parse_mode) tr of
           (None, tr1) \<Rightarrow> (Inr True, tr1)
         | (Some caption_error, tr1) \<Rightarrow>
             if class_of caption_error = TelegramBadRequest then
               existing_caption_stage srf m text reply_markup parse_mode link_preview_options
                 (logging Warning ''Failed to edit caption for menu image %s: %s''
                    [AStr image_path, AStr (str_of caption_error)] tr1)
             else if is_Exception caption_error then
               existing_caption_stage srf m text reply_markup parse_mode link_preview_options
                 (logging Error ''Unexpected error while editing caption for %s: %s''
                    [AStr image_path, AStr (str_of caption_error)] tr1)
             else (Inl caption_error, tr1))
      else existing_caption_stage srf m text reply_markup parse_mode link_preview_options tr)"

text \<open>
  Lines 36 to 80: the media edit, when an image is named and its file exists. The file
  test of line 38 is outside every \<open>try\<close>: what it raises leaves the function.
\<close>

definition edit_media_stage ::
  "'k surface \<Rightarrow> file_test \<Rightarrow> message \<Rightarrow> string \<Rightarrow> string option \<Rightarrow> 'k option \<Rightarrow>
   string option \<Rightarrow> link_preview_options option \<Rightarrow> 'k effect list \<Rightarrow> 'k outcome" where
  "edit_media_stage srf is_file m text image_filename reply_markup parse_mode
       link_preview_options tr =
     (case image_filename of
        None \<Rightarrow>
          existing_caption_stage srf m text reply_markup parse_mode link_preview_options tr
      | Some fname \<Rightarrow>
          if fname = [] then
            existing_caption_stage srf m text reply_markup parse_mode link_preview_options tr
          else
            (let image_path = image_path_of fname in
             case is_file image_path of
               Inl os_error \<Rightarrow> (Inl os_error, tr)
             | Inr True \<Rightarrow>
               (case perform srf (EditMedia image_path text parse_mode reply_markup) tr of
                  (None, tr1) \<Rightarrow> (Inr True, tr1)
                | (Some media_error, tr1) \<Rightarrow>
                    if class_of media_error = TelegramBadRequest then
                      media_rejected_handler srf m image_path text reply_markup parse_mode
                        link_preview_options
                        (logging Warning ''Failed to edit media for menu using %s: %s''
                           [AStr image_path, AStr (str_of media_error)] tr1)
                    else if is_Exception media_error then
                      existing_caption_stage srf m text reply_markup parse_mode
                        link_preview_options
                        (logging Error ''Unexpected error while editing menu media %s: %s''
                           [AStr image_path, AStr (str_of media_error)] tr1)
                    else (Inl media_error, tr1))
             | Inr False \<Rightarrow>
               existing_caption_stage srf m text reply_markup parse_mode link_preview_options
                 (logging Warning ''Menu image file not found: %s'' [AStr image_path] tr)))"

definition update_menu_message ::
  "'k surface \<Rightarrow> file_test \<Rightarrow> message option \<Rightarrow> string \<Rightarrow> string option \<Rightarrow>
   'k option \<Rightarrow> string option \<Rightarrow> bool \<Rightarrow> 'k effect list \<Rightarrow> 'k outcome" where
  "update_menu_message srf is_file msg text image_filename reply_markup parse_mode
       disable_link_preview tr =
     (case msg of
        None \<Rightarrow>
          (Inr False,
           logging Error ''update_menu_message called without a message instance'' [] tr)
      | Some m \<Rightarrow>
          (let link_preview_options =
                 (if disable_link_preview then Some (LinkPreviewOptions True) else None)
           in edit_media_stage srf is_file m text image_filename reply_markup parse_mode
                link_preview_options tr))"

text \<open>The inbound event: a button press (whose message may be gone), a message, or neither.\<close>

datatype event = CallbackQuery "message option" | Message message | OtherEvent

text \<open>Lines 180 to 193: the plain text message of send mode; \<open>image_used\<close> is still False.\<close>

definition send_text_stage ::
  "'k surface \<Rightarrow> message \<Rightarrow> string \<Rightarrow> 'k option \<Rightarrow> string option \<Rightarrow> bool \<Rightarrow>
   'k effect list \<Rightarrow> 'k outcome" where
  "send_text_stage srf target_message text reply_markup parse_mode disable_link_preview tr =
     (let link_preview_options =
            (if disable_link_preview then Some (LinkPreviewOptions True) else None)
      in case perform srf (SendMessage (chat_id target_message) text reply_markup parse_mode
                             link_preview_options) tr of
           (None, tr1) \<Rightarrow> (Inr False, tr1)
         | (Some send_text_error, tr1) \<Rightarrow>
             if is_Exception send_text_error then
               (Inr False,
                logging Error ''Failed to send menu text: %s''
                  [AStr (str_of send_text_error)] tr1)
             else (Inl send_text_error, tr1))"

definition render_menu_content ::
  "'k surface \<Rightarrow> file_test \<Rightarrow> event \<Rightarrow> string \<Rightarrow> string option \<Rightarrow> 'k option \<Rightarrow>
   string option \<Rightarrow> bool \<Rightarrow> 'k effect list \<Rightarrow> 'k outcome" where
  "render_menu_content srf is_file ev text image_filename reply_markup parse_mode
       disable_link_preview tr =
     (case ev of
        OtherEvent \<Rightarrow>
          (Inr False,
           logging Error ''render_menu_content called without a target message'' [] tr)
      | CallbackQuery None \<Rightarrow>
          (Inr False,
           logging Error ''render_menu_content called without a target message'' [] tr)
      | CallbackQuery (Some target_message) \<Rightarrow>
          update_menu_message srf is_file (Some target_message) text image_filename
            reply_markup parse_mode disable_link_preview tr
      | Message target_message \<Rightarrow>
          (case image_filename of
             None \<Rightarrow>
               send_text_stage srf target_message text reply_markup parse_mode
                 disable_link_preview tr
           | Some fname \<Rightarrow>
               if fname = [] then
                 send_text_stage srf target_message text reply_markup parse_mode
                   disable_link_preview tr
               else
                 (let image_path = image_path_of fname in
                  case is_file image_path of
                    Inl os_error \<Rightarrow> (Inl os_error, tr)
                  | Inr True \<Rightarrow>
                    (case perform srf (SendPhoto (chat_id target_message) image_path text
                                         reply_markup parse_mode) tr of
                       (None, tr1) \<Rightarrow> (Inr True, tr1)
                     | (Some send_photo_error, tr1) \<Rightarrow>
                         if is_Exception send_photo_error then
                           send_text_stage srf target_message text reply_markup parse_mode
                             disable_link_preview
                             (logging Warning ''Failed to send menu photo %s: %s''
                                [AStr image_path, AStr (str_of send_photo_error)] tr1)
                         else (Inl send_photo_error, tr1))
                  | Inr False \<Rightarrow>
                    send_text_stage srf target_message text reply_markup parse_mode
                      disable_link_preview tr)))"

section \<open>Python builtins the payment handler uses\<close>

subsection \<open>Splitting a string\<close>

text \<open>\<open>s.split(sep)\<close>: every occurrence of the separator ends a field; there is always one field.\<close>

fun split :: "char \<Rightarrow> string \<Rightarrow> string list" where
  "split sep [] = [[]]"
| "split sep (c # cs) =
     (if c = sep then [] # split sep cs
      else (case split sep cs of
              [] \<Rightarrow> [[c]]
            | w # ws \<Rightarrow> (c # w) # ws))"

text \<open>\<open>s.split(sep, 1)\<close>: at most one split, at the first separator.\<close>

definition split_once :: "char \<Rightarrow> string \<Rightarrow> string list" where
  "split_once sep s =
     (case dropWhile (\<lambda>c. c \<noteq> sep) s of
        [] \<Rightarrow> [s]
      | c # rest \<Rightarrow> [takeWhile (\<lambda>c. c \<noteq> sep) s, rest])"

subsection \<open>Floats\<close>

text \<open>
  A Python float is an IEEE 754 binary64 value: a finite number (kept as the rational it
  denotes exactly, \<open>Finite 0\<close> being positive zero), negative zero, an infinity or
  not-a-number.
\<close>

datatype pyfloat = Finite rat | NegZero | PosInf | NegInf | NaN

fun bit_length :: "nat \<Rightarrow> nat" where
  "bit_length n = (if n = 0 then 0 else Suc (bit_length (n div 2)))"

declare bit_length.simps [simp del]

definition pow2 :: "int \<Rightarrow> rat" where
  "pow2 k = (if 0 \<le> k then 2 ^ nat k else 1 / 2 ^ nat (- k))"

text \<open>The quotient \<open>n / d\<close> rounded to the nearest integer, ties to the even one.\<close>

definition round_half_even :: "nat \<Rightarrow> nat \<Rightarrow> nat" where
  "round_half_even n d =
     (let q = n div d; r = n mod d
      in if 2 * r < d then q
         else if d < 2 * r then q + 1
         else if even q then q else q + 1)"

text \<open>
  The binary64 value nearest to \<open>num / den\<close> (with \<open>den > 0\<close>), ties to even, as the
  correctly rounded conversion of CPython gives it: \<open>e\<close> is the binade of the quotient,
  \<open>2 ^ q\<close> the spacing of the doubles there (53 significant bits, subnormals below
  \<open>2 ^ -1022\<close>), and a result of \<open>2 ^ 1024\<close> or more is an infinity.
\<close>

definition round_to_double :: "bool \<Rightarrow> nat \<Rightarrow> nat \<Rightarrow> pyfloat" where
  "round_to_double neg num den =
     (if num = 0 then (if neg then NegZero else Finite 0)
      else
        (let e0 = int (bit_length num) - int (bit_length den);
             e = (if den * 2 ^ nat e0 \<le> num * 2 ^ nat (- e0) then e0 else e0 - 1)
         in if 1024 \<le> e then (if neg then NegInf else PosInf)
            else
              (let q = max e (- 1022) - 52;
                   m = round_half_even (num * 2 ^ nat (- q)) (den * 2 ^ nat q);
                   v = of_nat m * pow2 q
               in if m = 0 then (if neg then NegZero else Finite 0)
                  else if 2 ^ 1024 \<le> v then (if neg then NegInf else PosInf)
                  else Finite (if neg then - v else v))))"

text \<open>
  \<open>float(s)\<close> on a string. White space at both ends is dropped (among the code
  points below 256: tab to carriage return, space, and the two Latin-1 spaces). What is
  left is an optional sign and then \<open>inf\<close>, \<open>infinity\<close> or \<open>nan\<close> in any case, or a
  decimal number: digits with single underscores between them, an optional point, an
  optional exponent. Anything else raises \<open>ValueError\<close>.
\<close>

definition is_float_space :: "char \<Rightarrow> bool" where
  "is_float_space c =
     (let n = (of_char c :: nat) in (9 \<le> n \<and> n \<le> 13) \<or> n = 32 \<or> n = 133 \<or> n = 160)"

definition strip :: "string \<Rightarrow> string" where
  "strip s = rev (dropWhile is_float_space (rev (dropWhile is_float_space s)))"

definition is_digit :: "char \<Rightarrow> bool" where
  "is_digit c = (let n = (of_char c :: nat) in 48 \<le> n \<and> n \<le> 57)"

definition digit_val :: "char \<Rightarrow> nat" where
  "digit_val c = of_char c - 48"

definition nat_of_digits :: "string \<Rightarrow> nat" where
  "nat_of_digits ds = foldl (\<lambda>a c. 10 * a + digit_val c) 0 ds"

text \<open>
  The longest \<open>digitpart\<close> at the head of a string: its digits, and what follows it. An
  underscore belongs to it only between two digits.
\<close>

function digitpart :: "string \<Rightarrow> string \<times> string" where
  "digitpart [] = ([], [])"
| "digitpart (c # cs) =
     (if \<not> is_digit c then ([], c # cs)
      else
        (let cs' = (case cs of
                      u # d # ds \<Rightarrow> if u = CHR ''_'' \<and> is_digit d then d # ds else cs
                    | _ \<Rightarrow> cs)
         in case digitpart cs' of (a, r) \<Rightarrow> (c # a, r)))"
  by pat_completeness auto
termination
  by (relation "measure length") (auto split: list.splits)

declare digitpart.simps [simp del]

text \<open>The error of \<open>float\<close>; the message quotes the string, here without the quotes.\<close>

definition float_value_error :: "string \<Rightarrow> pyexn" where
  "float_value_error s = PyExn ValueError (''could not convert string to float: '' @ s)"

text \<open>The exponent part: nothing, or \<open>e\<close>, an optional sign and a \<open>digitpart\<close> up to the end.\<close>

definition exponent_of :: "string \<Rightarrow> int option" where
  "exponent_of r =
     (case r of
        [] \<Rightarrow> Some 0
      | c # r1 \<Rightarrow>
          if c = CHR ''e'' \<or> c = CHR ''E'' then
            (let (eneg, r2) =
                   (case r1 of
                      [] \<Rightarrow> (False, r1)
                    | s # r3 \<Rightarrow>
                        if s = CHR ''-'' then (True, r3)
                        else if s = CHR ''+'' then (False, r3)
                        else (False, r1))
             in case digitpart r2 of
                  (ds, rest) \<Rightarrow>
                    if ds = [] \<or> rest \<noteq> [] then None
                    else Some (if eneg then - int (nat_of_digits ds)
                               else int (nat_of_digits ds)))
          else None)"

definition float_of_number :: "bool \<Rightarrow> string \<Rightarrow> pyfloat option" where
  "float_of_number neg u =
     (case digitpart u of
        (ip, r1) \<Rightarrow>
          (let (had_point, fp, r2) =
                 (case r1 of
                    [] \<Rightarrow> (False, [], r1)
                  | p # r \<Rightarrow>
                      if p = CHR ''.'' then (case digitpart r of (f, r') \<Rightarrow> (True, f, r'))
                      else (False, [], r1))
           in if ip = [] \<and> fp = [] then None
              else
                (case exponent_of r2 of
                   None \<Rightarrow> None
                 | Some ex \<Rightarrow>
                     (let k = ex - int (length fp);
                          mant = nat_of_digits (ip @ fp)
                      in Some (round_to_double neg (mant * 10 ^ nat k) (10 ^ nat (- k)))))))"

definition py_float :: "string \<Rightarrow> pyexn + pyfloat" where
  "py_float s =
     (let t = strip s;
          (neg, u) =
            (case t of
               [] \<Rightarrow> (False, t)
             | c # r \<Rightarrow>
                 if c = CHR ''-'' then (True, r)
                 else if c = CHR ''+'' then (False, r)
                 else (False, t))
      in if lower u = ''inf'' \<or> lower u = ''infinity''
         then Inr (if neg then NegInf else PosInf)
         else if lower u = ''nan'' then Inr NaN
         else (case float_of_number neg u of
                 None \<Rightarrow> Inl (float_value_error s)
               | Some x \<Rightarrow> Inr x))"

text \<open>\<open>x.is_integer()\<close> and \<open>int(x)\<close>, which truncates and raises on the non-finite values.\<close>

fun is_integer :: "pyfloat \<Rightarrow> bool" where
  "is_integer (Finite r) = (of_int \<lfloor>r\<rfloor> = r)"
| "is_integer NegZero = True"
| "is_integer x = False"

fun py_int :: "pyfloat \<Rightarrow> pyexn + int" where
  "py_int (Finite r) = Inr (if 0 \<le> r then \<lfloor>r\<rfloor> else \<lceil>r\<rceil>)"
| "py_int NegZero = Inr 0"
| "py_int NaN = Inl (PyExn ValueError ''cannot convert float NaN to integer'')"
| "py_int x = Inl (PyExn OverflowError ''cannot convert float infinity to integer'')"

text \<open>\<open>str(n)\<close> for an integer.\<close>

fun digits_of_nat :: "nat \<Rightarrow> string" where
  "digits_of_nat n =
     (if n < 10 then [char_of (48 + n)]
      else digits_of_nat (n div 10) @ [char_of (48 + n mod 10)])"

declare digits_of_nat.simps [simp del]

definition str_int :: "int \<Rightarrow> string" where
  "str_int i = (if i < 0 then CHR ''-'' # digits_of_nat (nat (- i)) else digits_of_nat (nat i))"

text \<open>
  The two renderings of a float as text, \<open>format(x, 'g')\<close> and \<open>str(x)\<close>, are total
  functions of the language that no claim looks into; they are parameters.
\<close>

record float_formats =
  format_g :: "pyfloat \<Rightarrow> string"
  float_str :: "pyfloat \<Rightarrow> string"

section \<open>PaymentLinkFlow: bot/handlers/user/subscription/payments\_crypto.py\<close>

datatype kwarg = KStr string | KInt int

text \<open>
  \<open>i18n.gettext(lang, key, **kwargs)\<close> is a function of the localisation subsystem,
  taken as given.
\<close>

type_synonym gettext = "string \<Rightarrow> string \<Rightarrow> (string \<times> kwarg) list \<Rightarrow> string"

record i18n_data =
  current_language :: "string option"
  i18n_instance :: "gettext option"

record settings =
  DEFAULT_LANGUAGE :: string
  DEFAULT_CURRENCY_SYMBOL :: string

record cryptopay_service =
  configured :: bool

record callback_query =
  data :: string
  cb_message :: "message option"
  from_user_id :: int

text \<open>
  Modelled from the spec: \<open>get_payment_url_keyboard\<close> of bot/keyboards is not among the
  sources; the control-layout builder "produces an opaque layout object", here the
  record of its arguments (invoice URL, language, back callback, back text key).
\<close>

datatype keyboard = PaymentUrlKeyboard string string string string

text \<open>
  Modelled from the spec: \<open>_menu_image_if_exists\<close> of the subscription core is not among
  the sources; the image store maps a logical file name to the path under the image root
  and checks its existence before use, so the name is kept only when the file exists.
  The check is the file test of the renderer, and what that raises the lookup raises.
\<close>

definition menu_image_if_exists :: "file_test \<Rightarrow> string \<Rightarrow> pyexn + string option" where
  "menu_image_if_exists is_file name =
     (case is_file (image_path_of name) of
        Inl os_error \<Rightarrow> Inl os_error
      | Inr True \<Rightarrow> Inr (Some name)
      | Inr False \<Rightarrow> Inr None)"

text \<open>
  The calls that leave the handler: the acknowledgement of the interaction, the invoice
  creation of the gateway, and the two display functions of the subscription core (not
  among the sources either: each may return or raise). A call returns an optional string
  or raises; the world answers the list of the calls made so far, the current one last.
\<close>

datatype hcall =
    Answer "string option" bool
  | CreateInvoice int pyfloat pyfloat string string
  | RenderSubscribeMenu message string keyboard
  | SendMenuWithImage message string "string option" keyboard

datatype hresult = Raised pyexn | Returned "string option"

datatype heffect = HCall hcall hresult

fun hcalls_of :: "heffect list \<Rightarrow> hcall list" where
  "hcalls_of [] = []"
| "hcalls_of (HCall c r # es) = c # hcalls_of es"

type_synonym world = "hcall list \<Rightarrow> hresult"

type_synonym houtcome = "(pyexn + unit) \<times> heffect list"

definition hperform :: "world \<Rightarrow> hcall \<Rightarrow> heffect list \<Rightarrow> hresult \<times> heffect list" where
  "hperform wld c tr = (let r = wld (hcalls_of tr @ [c]) in (r, tr @ [HCall c r]))"

text \<open>
  \<open>try: await callback.answer(...) except Exception: pass\<close> followed by the end of the
  handler.
\<close>

definition answer_and_return :: "world \<Rightarrow> string option \<Rightarrow> bool \<Rightarrow> heffect list \<Rightarrow> houtcome" where
  "answer_and_return wld text show_alert tr =
     (case hperform wld (Answer text show_alert) tr of
        (Returned v, tr1) \<Rightarrow> (Inr (), tr1)
      | (Raised e, tr1) \<Rightarrow> if is_Exception e then (Inr (), tr1) else (Inl e, tr1))"

text \<open>Lines 41 to 46: the payload after the mode tag, as quantity, price and sale mode.\<close>

definition parse_payload :: "string \<Rightarrow> pyexn + (pyfloat \<times> pyfloat \<times> string)" where
  "parse_payload callback_data =
     (case split_once CHR '':'' callback_data of
        [tag, data_payload] \<Rightarrow>
          (let parts = split CHR '':'' data_payload
           in case py_float (hd parts) of
                Inl e \<Rightarrow> Inl e
              | Inr months \<Rightarrow>
                  (case tl parts of
                     [] \<Rightarrow> Inl (PyExn IndexError ''list index out of range'')
                   | p1 # others \<Rightarrow>
                       (case py_float p1 of
                          Inl e \<Rightarrow> Inl e
                        | Inr price_amount \<Rightarrow>
                            Inr (months, price_amount,
                                 (case others of [] \<Rightarrow> ''subscription'' | p2 # rest \<Rightarrow> p2)))))
      | _ \<Rightarrow> Inl (PyExn ValueError ''not enough values to unpack (expected 2, got 1)''))"

text \<open>\<open>human_value\<close> of line 55; \<open>int\<close> cannot raise on a value that is an integer.\<close>

definition human_value_of :: "float_formats \<Rightarrow> pyfloat \<Rightarrow> string" where
  "human_value_of fmt months =
     (if is_integer months
      then (case py_int months of Inr n \<Rightarrow> str_int n | Inl e \<Rightarrow> [])
      else format_g fmt months)"

definition back_callback_of :: "string \<Rightarrow> string" where
  "back_callback_of human_value = ''subscribe_period:'' @ human_value"

text \<open>
  Lines 81 to 113: the confirmation is shown by editing the menu; if that raises, by
  sending a new one, whose image is looked up inside the same \<open>try\<close>; then the
  interaction is acknowledged without an alert.
\<close>

definition display_payment_link ::
  "world \<Rightarrow> file_test \<Rightarrow> message \<Rightarrow> string \<Rightarrow> keyboard \<Rightarrow> heffect list \<Rightarrow> houtcome" where
  "display_payment_link wld is_file msg payment_text reply_markup tr =
     (case hperform wld (RenderSubscribeMenu msg payment_text reply_markup) tr of
        (Returned v, tr1) \<Rightarrow> answer_and_return wld None False tr1
      | (Raised e, tr1) \<Rightarrow>
          if is_Exception e then
            (case menu_image_if_exists is_file ''menu_subscribe.png'' of
               Inl lookup_error \<Rightarrow>
                 if is_Exception lookup_error then answer_and_return wld None False tr1
                 else (Inl lookup_error, tr1)
             | Inr menu_image \<Rightarrow>
                 (case hperform wld
                         (SendMenuWithImage msg payment_text menu_image reply_markup) tr1 of
                    (Returned v, tr2) \<Rightarrow> answer_and_return wld None False tr2
                  | (Raised e2, tr2) \<Rightarrow>
                      if is_Exception e2 then answer_and_return wld None False tr2
                      else (Inl e2, tr2)))
          else (Inl e, tr1))"

text \<open>Lines 54 to 118: from the parsed request to the end of the handler.\<close>

definition after_parse ::
  "world \<Rightarrow> file_test \<Rightarrow> float_formats \<Rightarrow> gettext \<Rightarrow> string \<Rightarrow> settings \<Rightarrow>
   callback_query \<Rightarrow> message \<Rightarrow> pyfloat \<Rightarrow> pyfloat \<Rightarrow> string \<Rightarrow> heffect list \<Rightarrow> houtcome" where
  "after_parse wld is_file fmt i18n current_lang settings callback msg months price_amount
       sale_mode tr =
     (let user_id = from_user_id callback;
          human_value = human_value_of fmt months
      in case (if sale_mode = ''traffic''
               then Inr (i18n current_lang ''payment_description_traffic''
                           [(''traffic_gb'', KStr human_value)])
               else (case py_int months of
                       Inl e \<Rightarrow> Inl e
                     | Inr n \<Rightarrow> Inr (i18n current_lang ''payment_description_subscription''
                                        [(''months'', KInt n)]))) of
           Inl e \<Rightarrow> (Inl e, tr)
         | Inr payment_description \<Rightarrow>
             (let price_display =
                    (if sale_mode = ''traffic'' then human_value else float_str fmt price_amount);
                  currency_symbol = DEFAULT_CURRENCY_SYMBOL settings
              in case hperform wld
                        (CreateInvoice user_id months price_amount payment_description sale_mode)
                        tr of
                   (Raised e, tr1) \<Rightarrow> (Inl e, tr1)
                 | (Returned invoice_url, tr1) \<Rightarrow>
                     (case invoice_url of
                        None \<Rightarrow>
                          answer_and_return wld
                            (Some (i18n current_lang ''error_payment_gateway'' [])) True tr1
                      | Some url \<Rightarrow>
                          if url = [] then
                            answer_and_return wld
                              (Some (i18n current_lang ''error_payment_gateway'' [])) True tr1
                          else
                            (case py_int months of
                               Inl e \<Rightarrow> (Inl e, tr1)
                             | Inr n \<Rightarrow>
                                 (let payment_text =
                                        i18n current_lang
                                          (if sale_mode = ''traffic''
                                           then ''payment_link_message_traffic''
                                           else ''payment_link_message'')
                                          [(''months'', KInt n),
                                           (''traffic_gb'', KStr human_value),
                                           (''price'', KStr price_display),
                                           (''currency_symbol'', KStr currency_symbol)]
                                  in display_payment_link wld is_file msg payment_text
                                       (PaymentUrlKeyboard url current_lang
                                          (back_callback_of human_value)
                                          ''back_to_payment_methods_button'')
                                       tr1)))))"

definition pay_crypto_callback_handler ::
  "world \<Rightarrow> file_test \<Rightarrow> float_formats \<Rightarrow> callback_query \<Rightarrow> settings \<Rightarrow> i18n_data \<Rightarrow>
   cryptopay_service option \<Rightarrow> heffect list \<Rightarrow> houtcome" where
  "pay_crypto_callback_handler wld is_file fmt callback settings i18n_data cryptopay_service tr =
     (let current_lang =
            (case current_language i18n_data of
               Some l \<Rightarrow> l
             | None \<Rightarrow> DEFAULT_LANGUAGE settings)
      in case (i18n_instance i18n_data, cb_message callback) of
           (None, m) \<Rightarrow>
             answer_and_return wld (Some ''error_occurred_try_again'') True tr
         | (Some i18n, None) \<Rightarrow>
             answer_and_return wld
               (Some (i18n current_lang ''error_occurred_try_again'' [])) True tr
         | (Some i18n, Some msg) \<Rightarrow>
             if (case cryptopay_service of None \<Rightarrow> True | Some svc \<Rightarrow> \<not> configured svc) then
               answer_and_return wld
                 (Some (i18n current_lang ''payment_service_unavailable_alert'' [])) True tr
             else
               (case parse_payload (data callback) of
                  Inl e \<Rightarrow>
                    if class_of e = ValueError \<or> class_of e = IndexError then
                      answer_and_return wld
                        (Some (i18n current_lang ''error_try_again'' [])) True tr
                    else (Inl e, tr)
                | Inr (months, price_amount, sale_mode) \<Rightarrow>
                    after_parse wld is_file fmt i18n current_lang settings callback msg
                      months price_amount sale_mode tr))"


section \<open>Properties of a trace\<close>

text \<open>
  Every operation that raised is followed at once by a log record. The hypothesis on the
  surface: whatever it raises is an instance of \<open>Exception\<close>.
\<close>

fun failures_logged :: "'k effect list \<Rightarrow> bool" where
  "failures_logged [] = True"
| "failures_logged (Call c None # es) = failures_logged es"
| "failures_logged (Log l f as # es) = failures_logged es"
| "failures_logged (Call c (Some e) # es) =
     (case es of Log l f as # es' \<Rightarrow> failures_logged es' | _ \<Rightarrow> False)"

definition raises_only_exceptions :: "'k surface \<Rightarrow> bool" where
  "raises_only_exceptions srf = (\<forall>cs e. srf cs = Some e \<longrightarrow> is_Exception e)"

text \<open>Total failure: no operation on the chat surface returned.\<close>

fun no_success :: "'k effect list \<Rightarrow> bool" where
  "no_success [] = True"
| "no_success (Call c r # es) = (r \<noteq> None \<and> no_success es)"
| "no_success (Log l f as # es) = no_success es"

text \<open>
  An outcome that extends the trace, returns a boolean, has logged every failure and is
  False when nothing succeeded.
\<close>

definition returns_logged :: "'k effect list \<Rightarrow> 'k outcome \<Rightarrow> bool" where
  "returns_logged tr out =
     (\<exists>b new. out = (Inr b, tr @ new) \<and> failures_logged new \<and> (no_success new \<longrightarrow> \<not> b))"

text \<open>What the file test of lines 38 and 165 raises, when it is reached and raises.\<close>

definition file_test_raises :: "file_test \<Rightarrow> string option \<Rightarrow> pyexn option" where
  "file_test_raises is_file image_filename =
     (case image_filename of
        None \<Rightarrow> None
      | Some fname \<Rightarrow>
          if fname = [] then None
          else (case is_file (image_path_of fname) of Inl e \<Rightarrow> Some e | Inr b \<Rightarrow> None))"


text \<open>Counting the operations of one kind in a trace.\<close>

fun is_edit_media :: "'k call \<Rightarrow> bool" where
  "is_edit_media (EditMedia p t pm k) = True"
| "is_edit_media c = False"


fun is_edit_text :: "'k call \<Rightarrow> bool" where
  "is_edit_text (EditText t k pm l) = True"
| "is_edit_text c = False"

fun is_send_photo :: "'k call \<Rightarrow> bool" where
  "is_send_photo (SendPhoto ch p t k pm) = True"
| "is_send_photo c = False"

text \<open>
  A trace in which the surface rejected a media edit, and one in which a caption edit
  raised.
\<close>

fun media_rejected :: "'k effect list \<Rightarrow> bool" where
  "media_rejected [] = False"
| "media_rejected (Call c (Some e) # es) =
     ((is_edit_media c \<and> class_of e = TelegramBadRequest) \<or> media_rejected es)"
| "media_rejected (Call c None # es) = media_rejected es"
| "media_rejected (Log l f as # es) = media_rejected es"


definition count_calls :: "('k call \<Rightarrow> bool) \<Rightarrow> 'k effect list \<Rightarrow> nat" where
  "count_calls P tr = length (filter P (calls_of tr))"


text \<open>
  A trace without a text edit, and an outcome that either made no text edit or is that of
  the last stage started from such a trace.
\<close>

definition no_text :: "'k effect list \<Rightarrow> bool" where
  "no_text tr = (filter is_edit_text (calls_of tr) = [])"

definition reaches_text ::
  "'k surface \<Rightarrow> message \<Rightarrow> string \<Rightarrow> 'k option \<Rightarrow> string option \<Rightarrow>
   link_preview_options option \<Rightarrow> 'k outcome \<Rightarrow> bool" where
  "reaches_text srf m text mk pm lpo out =
     (no_text (snd out) \<or>
      (\<exists>pre. no_text pre \<and> out = edit_text_stage srf m text mk pm lpo pre))"


text \<open>Two outcomes agree on the result and on what the chat surface saw.\<close>

definition same_surface :: "'k outcome \<Rightarrow> 'k outcome \<Rightarrow> bool" where
  "same_surface a b = (fst a = fst b \<and> surface_effects (snd a) = surface_effects (snd b))"


section \<open>Properties of a run of the payment handler\<close>



text \<open>Counting the calls of one kind that left the handler.\<close>

fun is_create_invoice :: "hcall \<Rightarrow> bool" where
  "is_create_invoice (CreateInvoice u q p d s) = True"
| "is_create_invoice c = False"

fun is_render :: "hcall \<Rightarrow> bool" where
  "is_render (RenderSubscribeMenu m t k) = True"
| "is_render c = False"

fun is_send_menu :: "hcall \<Rightarrow> bool" where
  "is_send_menu (SendMenuWithImage m t i k) = True"
| "is_send_menu c = False"

definition hcount :: "(hcall \<Rightarrow> bool) \<Rightarrow> heffect list \<Rightarrow> nat" where
  "hcount P tr = length (filter P (hcalls_of tr))"

definition no_render :: "heffect list \<Rightarrow> bool" where
  "no_render tr = (filter is_render (hcalls_of tr) = [])"

text \<open>
  An outcome without a call of \<open>render_subscribe_menu\<close>, or that of the display of lines
  81 to 113 started right after the gateway returned a URL.
\<close>

definition reaches_display :: "world \<Rightarrow> file_test \<Rightarrow> houtcome \<Rightarrow> bool" where
  "reaches_display wld is_file out =
     (no_render (snd out) \<or>
      (\<exists>c url m t k. is_create_invoice c \<and> url \<noteq> [] \<and>
         out = display_payment_link wld is_file m t k [HCall c (Returned (Some url))]))"

text \<open>Whatever the world raises is an instance of \<open>Exception\<close>.\<close>

definition world_raises_only_exceptions :: "world \<Rightarrow> bool" where
  "world_raises_only_exceptions wld = (\<forall>cs e. wld cs = Raised e \<longrightarrow> is_Exception e)"

section \<open>MenuRenderer: the fallback chain\<close>

lemma calls_of_append: "calls_of (xs @ ys) = calls_of xs @ calls_of ys"
  by (induction xs rule: calls_of.induct) simp_all

lemma surface_effects_append: "surface_effects (xs @ ys) = surface_effects xs @ surface_effects ys"
  by (induction xs rule: surface_effects.induct) simp_all

lemma failures_logged_append:
  "failures_logged xs \<Longrightarrow> failures_logged ys \<Longrightarrow> failures_logged (xs @ ys)"
  by (induction xs rule: failures_logged.induct) (auto split: list.splits effect.splits)

lemma no_success_append: "no_success (xs @ ys) = (no_success xs \<and> no_success ys)"
  by (induction xs rule: no_success.induct) simp_all

lemma returns_logged_extend:
  "failures_logged pre \<Longrightarrow> returns_logged (tr @ pre) out \<Longrightarrow> returns_logged tr out"
  unfolding returns_logged_def by (auto intro: failures_logged_append simp: no_success_append)

lemma returns_logged_now:
  "failures_logged new \<Longrightarrow> (no_success new \<longrightarrow> \<not> b) \<Longrightarrow> returns_logged tr (Inr b, tr @ new)"
  unfolding returns_logged_def by blast

lemma edit_text_stage_logged:
  assumes "raises_only_exceptions srf"
  shows "returns_logged tr (edit_text_stage srf m text mk pm lpo tr)"
proof (cases "srf (calls_of tr @ [EditText text mk pm lpo])")
  case None
  then show ?thesis
    by (simp add: edit_text_stage_def perform_def Let_def returns_logged_now)
next
  case (Some e)
  with assms have "is_Exception e" by (auto simp: raises_only_exceptions_def)
  with Some show ?thesis
    by (simp add: edit_text_stage_def perform_def Let_def logging_def returns_logged_now)
qed

lemma existing_caption_stage_logged:
  assumes "raises_only_exceptions srf"
  shows "returns_logged tr (existing_caption_stage srf m text mk pm lpo tr)"
proof (cases "photo_truthy m")
  case False
  then show ?thesis
    by (simp add: existing_caption_stage_def edit_text_stage_logged [OF assms])
next
  case True
  show ?thesis
  proof (cases "srf (calls_of tr @ [EditCaption text mk pm])")
    case None
    with True show ?thesis
      by (simp add: existing_caption_stage_def perform_def Let_def returns_logged_now)
  next
    case (Some e)
    with assms have ex: "is_Exception e" by (auto simp: raises_only_exceptions_def)
    have step: "\<And>l f as. returns_logged tr
        (edit_text_stage srf m text mk pm lpo (tr @ [Call (EditCaption text mk pm) (Some e), Log l f as]))"
      by (rule returns_logged_extend [OF _ edit_text_stage_logged [OF assms]]) simp
    from True Some ex show ?thesis
      by (simp add: existing_caption_stage_def perform_def Let_def logging_def step)
  qed
qed

lemma media_rejected_handler_logged:
  assumes "raises_only_exceptions srf"
  shows "returns_logged tr (media_rejected_handler srf m p text mk pm lpo tr)"
proof (cases "photo_truthy m")
  case False
  then show ?thesis
    by (simp add: media_rejected_handler_def existing_caption_stage_logged [OF assms])
next
  case True
  show ?thesis
  proof (cases "srf (calls_of tr @ [EditCaption text mk pm])")
    case None
    with True show ?thesis
      by (simp add: media_rejected_handler_def perform_def Let_def returns_logged_now)
  next
    case (Some e)
    with assms have ex: "is_Exception e" by (auto simp: raises_only_exceptions_def)
    have step: "\<And>l f as. returns_logged tr
        (existing_caption_stage srf m text mk pm lpo (tr @ [Call (EditCaption text mk pm) (Some e), Log l f as]))"
      by (rule returns_logged_extend [OF _ existing_caption_stage_logged [OF assms]]) simp
    from True Some ex show ?thesis
      by (simp add: media_rejected_handler_def perform_def Let_def logging_def step)
  qed
qed

lemma edit_media_stage_logged:
  assumes "raises_only_exceptions srf"
  shows "case file_test_raises is_file image_filename of
           None \<Rightarrow> returns_logged tr
                     (edit_media_stage srf is_file m text image_filename mk pm lpo tr)
         | Some e \<Rightarrow> edit_media_stage srf is_file m text image_filename mk pm lpo tr = (Inl e, tr)"
proof (cases "\<exists>f. image_filename = Some f \<and> f \<noteq> [] \<and> is_file (image_path_of f) \<noteq> Inr False")
  case False
  have step: "\<And>l f as. returns_logged tr
        (existing_caption_stage srf m text mk pm lpo (tr @ [Log l f as]))"
    by (rule returns_logged_extend [OF _ existing_caption_stage_logged [OF assms]]) simp
  from False show ?thesis
    by (auto simp: edit_media_stage_def file_test_raises_def logging_def step
        existing_caption_stage_logged [OF assms] split: option.splits)
next
  case True
  then obtain f where f: "image_filename = Some f" "f \<noteq> []"
    and nf: "is_file (image_path_of f) \<noteq> Inr False" by blast
  show ?thesis
  proof (cases "is_file (image_path_of f)")
    case (Inl e)
    with f show ?thesis by (simp add: edit_media_stage_def file_test_raises_def)
  next
    case (Inr b)
    with nf have t: "is_file (image_path_of f) = Inr True" by simp
    show ?thesis
    proof (cases "srf (calls_of tr @ [EditMedia (image_path_of f) text pm mk])")
      case None
      with f t show ?thesis
        by (simp add: edit_media_stage_def file_test_raises_def perform_def Let_def
            returns_logged_now)
    next
      case (Some e)
      with assms have ex: "is_Exception e" by (auto simp: raises_only_exceptions_def)
      have s1: "\<And>l f' as. returns_logged tr
          (existing_caption_stage srf m text mk pm lpo
             (tr @ [Call (EditMedia (image_path_of f) text pm mk) (Some e), Log l f' as]))"
        by (rule returns_logged_extend [OF _ existing_caption_stage_logged [OF assms]]) simp
      have s2: "\<And>l f' as. returns_logged tr
          (media_rejected_handler srf m (image_path_of f) text mk pm lpo
             (tr @ [Call (EditMedia (image_path_of f) text pm mk) (Some e), Log l f' as]))"
        by (rule returns_logged_extend [OF _ media_rejected_handler_logged [OF assms]]) simp
      from f t Some ex show ?thesis
        by (simp add: edit_media_stage_def file_test_raises_def perform_def Let_def
            logging_def s1 s2)
    qed
  qed
qed

lemma update_menu_message_logged:
  assumes "raises_only_exceptions srf"
  shows "returns_logged tr (update_menu_message srf is_file msg text image_filename mk pm dlp tr)
    \<or> (\<exists>e. file_test_raises is_file image_filename = Some e
           \<and> update_menu_message srf is_file msg text image_filename mk pm dlp tr = (Inl e, tr))"
proof (cases msg)
  case None
  then show ?thesis
    by (simp add: update_menu_message_def logging_def returns_logged_now)
next
  case (Some m)
  with edit_media_stage_logged [OF assms, where is_file = is_file
      and image_filename = image_filename and tr = tr and m = m and ?text = "text" and mk = mk
      and pm = pm and lpo = "if dlp then Some (LinkPreviewOptions True) else None"]
  show ?thesis
    by (cases "file_test_raises is_file image_filename") (simp_all add: update_menu_message_def)
qed

lemma send_text_stage_logged:
  assumes "raises_only_exceptions srf"
  shows "returns_logged tr (send_text_stage srf m text mk pm dlp tr)"
proof (cases "srf (calls_of tr @ [SendMessage (chat_id m) text mk pm
          (if dlp then Some (LinkPreviewOptions True) else None)])")
  case None
  then show ?thesis
    by (simp add: send_text_stage_def perform_def Let_def returns_logged_now)
next
  case (Some e)
  with assms have "is_Exception e" by (auto simp: raises_only_exceptions_def)
  with Some show ?thesis
    by (simp add: send_text_stage_def perform_def Let_def logging_def returns_logged_now)
qed

lemma send_mode_logged:
  assumes "raises_only_exceptions srf"
  shows "case file_test_raises is_file image_filename of
           None \<Rightarrow> returns_logged tr
             (render_menu_content srf is_file (Message m) text image_filename mk pm dlp tr)
         | Some e \<Rightarrow>
             render_menu_content srf is_file (Message m) text image_filename mk pm dlp tr
               = (Inl e, tr)"
proof (cases "\<exists>f. image_filename = Some f \<and> f \<noteq> [] \<and> is_file (image_path_of f) \<noteq> Inr False")
  case False
  then show ?thesis
    by (auto simp: render_menu_content_def file_test_raises_def
        send_text_stage_logged [OF assms] split: option.splits)
next
  case True
  then obtain f where f: "image_filename = Some f" "f \<noteq> []"
    and nf: "is_file (image_path_of f) \<noteq> Inr False" by blast
  show ?thesis
  proof (cases "is_file (image_path_of f)")
    case (Inl e)
    with f show ?thesis by (simp add: render_menu_content_def file_test_raises_def)
  next
    case (Inr b)
    with nf have t: "is_file (image_path_of f) = Inr True" by simp
    show ?thesis
    proof (cases "srf (calls_of tr @ [SendPhoto (chat_id m) (image_path_of f) text mk pm])")
      case None
      with f t show ?thesis
        by (simp add: render_menu_content_def file_test_raises_def perform_def Let_def
            returns_logged_now)
    next
      case (Some e)
      with assms have ex: "is_Exception e" by (auto simp: raises_only_exceptions_def)
      have s1: "\<And>l f' as. returns_logged tr
          (send_text_stage srf m text mk pm dlp
             (tr @ [Call (SendPhoto (chat_id m) (image_path_of f) text mk pm) (Some e), Log l f' as]))"
        by (rule returns_logged_extend [OF _ send_text_stage_logged [OF assms]]) simp
      from f t Some ex show ?thesis
        by (simp add: render_menu_content_def file_test_raises_def perform_def Let_def
            logging_def s1)
    qed
  qed
qed

lemma render_menu_content_logged:
  assumes "raises_only_exceptions srf"
  shows "returns_logged tr (render_menu_content srf is_file ev text image_filename mk pm dlp tr)
    \<or> (\<exists>e. file_test_raises is_file image_filename = Some e
           \<and> render_menu_content srf is_file ev text image_filename mk pm dlp tr = (Inl e, tr))"
proof (cases ev)
  case (CallbackQuery mo)
  show ?thesis
  proof (cases mo)
    case None
    with CallbackQuery show ?thesis
      by (simp add: render_menu_content_def logging_def returns_logged_now)
  next
    case (Some m)
    with CallbackQuery
      update_menu_message_logged [OF assms, where tr = tr and is_file = is_file
        and msg = "Some m" and ?text = "text" and image_filename = image_filename and mk = mk
        and pm = pm and dlp = dlp]
    show ?thesis by (simp add: render_menu_content_def)
  qed
next
  case (Message m)
  with send_mode_logged [OF assms, where is_file = is_file and image_filename = image_filename
      and tr = tr and m = m and ?text = "text" and mk = mk and pm = pm and dlp = dlp]
  show ?thesis by (cases "file_test_raises is_file image_filename") simp_all
next
  case OtherEvent
  then show ?thesis by (simp add: render_menu_content_def logging_def returns_logged_now)
qed

text \<open>
  C1. Whatever the chat surface raises (any instance of \<open>Exception\<close>, at any of its
  operations), \<open>update_menu_message\<close> and \<open>render_menu_content\<close> return a boolean
  and never an exception, every operation that raised is followed by a log record, and
  the boolean is False when no operation returned. The one exception that leaves either
  function is not of the chat surface: that of the file test, raised before any operation.
\<close>

theorem renderer_never_raises:
  assumes "raises_only_exceptions srf"
  shows "((\<exists>b. fst (update_menu_message srf is_file msg text image_filename mk pm dlp []) = Inr b
              \<and> (no_success (snd (update_menu_message srf is_file msg text image_filename mk pm dlp []))
                   \<longrightarrow> b = False))
           \<and> failures_logged (snd (update_menu_message srf is_file msg text image_filename mk pm dlp []))
         \<or> (\<exists>e. file_test_raises is_file image_filename = Some e
               \<and> update_menu_message srf is_file msg text image_filename mk pm dlp [] = (Inl e, [])))
    \<and> ((\<exists>b. fst (render_menu_content srf is_file ev text image_filename mk pm dlp []) = Inr b
              \<and> (no_success (snd (render_menu_content srf is_file ev text image_filename mk pm dlp []))
                   \<longrightarrow> b = False))
           \<and> failures_logged (snd (render_menu_content srf is_file ev text image_filename mk pm dlp []))
         \<or> (\<exists>e. file_test_raises is_file image_filename = Some e
               \<and> render_menu_content srf is_file ev text image_filename mk pm dlp [] = (Inl e, [])))"
proof -
  have r: "returns_logged [] out \<Longrightarrow>
      (\<exists>b. fst out = Inr b \<and> (no_success (snd out) \<longrightarrow> b = False)) \<and> failures_logged (snd out)"
    for out :: "'a outcome"
    unfolding returns_logged_def by auto
  from update_menu_message_logged [OF assms, where tr = "[]" and is_file = is_file
      and msg = msg and ?text = "text" and image_filename = image_filename and mk = mk
      and pm = pm and dlp = dlp]
    render_menu_content_logged [OF assms, where tr = "[]" and is_file = is_file
      and ev = ev and ?text = "text" and image_filename = image_filename and mk = mk
      and pm = pm and dlp = dlp]
  show ?thesis using r by blast
qed


theorem renderer_never_raises_witness: "raises_only_exceptions (\<lambda>cs::unit call list. Some (PyExn OtherException ''timeout''))
  \<and> file_test_raises (\<lambda>p. Inr True) (Some ''menu.png'') = None
  \<and> update_menu_message (\<lambda>cs::unit call list. Some (PyExn OtherException ''timeout'')) (\<lambda>p. Inr True)
       (Some \<lparr>message_id = 7, chat_id = 1, photo = None\<rparr>) ''hi'' (Some ''menu.png'') None (Some ''HTML'') True []
     = (Inr False, [Call (EditMedia ''/app/bot/static/images/menu.png'' ''hi'' (Some ''HTML'') None) (Some (PyExn OtherException ''timeout'')),
         Log Error ''Unexpected error while editing menu media %s: %s'' [AStr ''/app/bot/static/images/menu.png'', AStr ''timeout''],
         Call (EditText ''hi'' None (Some ''HTML'') (Some (LinkPreviewOptions True))) (Some (PyExn OtherException ''timeout'')),
         Log Error ''Unexpected error while editing menu text: %s'' [AStr ''timeout'']])
  \<and> no_success (snd (update_menu_message (\<lambda>cs::unit call list. Some (PyExn OtherException ''timeout'')) (\<lambda>p. Inr True)
       (Some \<lparr>message_id = 7, chat_id = 1, photo = None\<rparr>) ''hi'' (Some ''menu.png'') None (Some ''HTML'') True []))"
  using renderer_never_raises [where srf = "\<lambda>cs::unit call list. Some (PyExn OtherException ''timeout'')"]
  by (simp add: raises_only_exceptions_def is_Exception_def update_menu_message_def edit_media_stage_def
      existing_caption_stage_def edit_text_stage_def perform_def logging_def Let_def photo_truthy_def
      image_path_of_def MENU_IMAGES_ROOT_def file_test_raises_def)


subsection \<open>The sequences of operations\<close>

lemma edit_text_stage_calls:
  "calls_of (snd (edit_text_stage srf m text mk pm lpo tr)) = calls_of tr @ [EditText text mk pm lpo]"
  by (simp add: edit_text_stage_def perform_def Let_def logging_def calls_of_append
      split: option.splits)

lemma existing_caption_stage_calls:
  "calls_of (snd (existing_caption_stage srf m text mk pm lpo tr))
     \<in> (@) (calls_of tr) ` {[EditText text mk pm lpo], [EditCaption text mk pm],
              [EditCaption text mk pm, EditText text mk pm lpo]}"
  by (simp add: existing_caption_stage_def perform_def Let_def logging_def calls_of_append
      edit_text_stage_calls split: option.splits)



lemma count_calls_append:
  "count_calls P (xs @ ys) = count_calls P xs + count_calls P ys"
  by (simp add: count_calls_def calls_of_append)

lemma media_rejected_append:
  "media_rejected (xs @ ys) = (media_rejected xs \<or> media_rejected ys)"
  by (induction xs rule: media_rejected.induct) auto












subsection \<open>Send mode\<close>

text \<open>
  C5. Send mode with an existing image file: a photo send that returns gives True with
  no other operation; a photo send that raises is followed by exactly one text send with
  the text, the controls and the link preview setting, and the outcome is False whether
  that text send returns or raises.
\<close>

theorem send_mode_single_fallback:
  assumes "fname \<noteq> []" and "is_file (image_path_of fname) = Inr True"
  shows "(srf [SendPhoto (chat_id m) (image_path_of fname) text mk pm] = None \<longrightarrow>
            render_menu_content srf is_file (Message m) text (Some fname) mk pm dlp []
              = (Inr True, [Call (SendPhoto (chat_id m) (image_path_of fname) text mk pm) None]))
      \<and> (\<forall>e. srf [SendPhoto (chat_id m) (image_path_of fname) text mk pm] = Some e
               \<and> is_Exception e \<longrightarrow>
            calls_of (snd (render_menu_content srf is_file (Message m) text (Some fname) mk pm dlp []))
              = [SendPhoto (chat_id m) (image_path_of fname) text mk pm,
                 SendMessage (chat_id m) text mk pm
                   (if dlp then Some (LinkPreviewOptions True) else None)]
            \<and> ((\<forall>e'. srf [SendPhoto (chat_id m) (image_path_of fname) text mk pm,
                              SendMessage (chat_id m) text mk pm
                                (if dlp then Some (LinkPreviewOptions True) else None)] = Some e'
                        \<longrightarrow> is_Exception e')
                 \<longrightarrow> fst (render_menu_content srf is_file (Message m) text (Some fname) mk pm dlp [])
                       = Inr False))"
  using assms
  by (auto simp: render_menu_content_def send_text_stage_def perform_def logging_def Let_def
      calls_of_append split: option.splits)

subsection \<open>An unexpected error of the media edit\<close>

lemma edit_text_stage_extends:
  "take (length tr) (snd (edit_text_stage srf m text mk pm lpo tr)) = tr"
  by (simp add: edit_text_stage_def perform_def Let_def logging_def split: option.splits)

lemma take_prefix_append:
  assumes "take (length (tr @ xs)) ys = tr @ xs"
  shows "take (length tr) ys = tr"
proof -
  have "take (length tr) (take (length (tr @ xs)) ys) = take (length tr) ys"
    by (simp add: min_def)
  with assms show ?thesis by simp
qed

lemma existing_caption_stage_extends:
  "take (length tr) (snd (existing_caption_stage srf m text mk pm lpo tr)) = tr"
proof -
  have "take (length tr) (snd (edit_text_stage srf m text mk pm lpo (tr @ [a, b]))) = tr" for a b
    by (rule take_prefix_append [OF edit_text_stage_extends])
  then show ?thesis
    by (simp add: existing_caption_stage_def perform_def Let_def logging_def edit_text_stage_extends
        split: option.splits)
qed

lemma existing_caption_stage_photo_calls:
  "photo_truthy m \<Longrightarrow>
   calls_of (snd (existing_caption_stage srf m text mk pm lpo tr))
     \<in> (@) (calls_of tr) ` {[EditCaption text mk pm],
              [EditCaption text mk pm, EditText text mk pm lpo]}"
  by (simp add: existing_caption_stage_def perform_def Let_def logging_def calls_of_append
      edit_text_stage_calls split: option.splits)

lemma existing_caption_stage_no_photo:
  "\<not> photo_truthy m \<Longrightarrow>
   existing_caption_stage srf m text mk pm lpo tr = edit_text_stage srf m text mk pm lpo tr"
  by (simp add: existing_caption_stage_def)

lemma existing_caption_stage_success:
  "photo_truthy m \<Longrightarrow> srf (calls_of tr @ [EditCaption text mk pm]) = None \<Longrightarrow>
   existing_caption_stage srf m text mk pm lpo tr
     = (Inr True, tr @ [Call (EditCaption text mk pm) None])"
  by (simp add: existing_caption_stage_def perform_def Let_def)

lemma edit_text_stage_not_true:
  "fst (edit_text_stage srf m text mk pm lpo tr) \<noteq> Inr True"
  by (simp add: edit_text_stage_def perform_def Let_def split: option.splits)

lemma edit_text_stage_false:
  assumes "\<forall>e. srf (calls_of tr @ [EditText text mk pm lpo]) = Some e \<longrightarrow> is_Exception e"
  shows "fst (edit_text_stage srf m text mk pm lpo tr) = Inr False"
  using assms by (simp add: edit_text_stage_def perform_def Let_def split: option.splits)

lemma existing_caption_stage_failure:
  assumes "photo_truthy m" and "srf (calls_of tr @ [EditCaption text mk pm]) = Some e2"
    and "is_Exception e2"
  shows "\<exists>l f as. existing_caption_stage srf m text mk pm lpo tr
     = edit_text_stage srf m text mk pm lpo (tr @ [Call (EditCaption text mk pm) (Some e2), Log l f as])"
  using assms by (simp add: existing_caption_stage_def perform_def Let_def logging_def) blast

text \<open>
  C8, as amended. When the media edit fails with an error that is not a structured
  rejection, the error is logged at error severity and control reaches line 84: a message
  without a photo goes directly to the text edit; a message with a photo gets a caption
  edit first, whose success ends the call with True and whose failure is followed by the
  text edit. The result is True exactly when that caption edit returned.
\<close>

theorem media_unexpected_error_falls_to_caption:
  assumes "fname \<noteq> []" and "is_file (image_path_of fname) = Inr True"
    and "srf [EditMedia (image_path_of fname) text pm mk] = Some e"
    and "class_of e \<noteq> TelegramBadRequest" and "is_Exception e"
  shows "take 2 (snd (update_menu_message srf is_file (Some m) text (Some fname) mk pm dlp []))
           = [Call (EditMedia (image_path_of fname) text pm mk) (Some e),
              Log Error ''Unexpected error while editing menu media %s: %s''
                [AStr (image_path_of fname), AStr (str_of e)]]
      \<and> (\<not> photo_truthy m \<longrightarrow>
            calls_of (snd (update_menu_message srf is_file (Some m) text (Some fname) mk pm dlp []))
              = [EditMedia (image_path_of fname) text pm mk,
                 EditText text mk pm (if dlp then Some (LinkPreviewOptions True) else None)]
            \<and> ((\<forall>e'. srf [EditMedia (image_path_of fname) text pm mk,
                           EditText text mk pm (if dlp then Some (LinkPreviewOptions True) else None)]
                         = Some e' \<longrightarrow> is_Exception e')
               \<longrightarrow> fst (update_menu_message srf is_file (Some m) text (Some fname) mk pm dlp [])
                     = Inr False))
      \<and> (photo_truthy m \<longrightarrow>
            take 2 (calls_of (snd (update_menu_message srf is_file (Some m) text (Some fname) mk pm dlp [])))
              = [EditMedia (image_path_of fname) text pm mk, EditCaption text mk pm])
      \<and> (photo_truthy m \<and> srf [EditMedia (image_path_of fname) text pm mk, EditCaption text mk pm] = None
           \<longrightarrow> update_menu_message srf is_file (Some m) text (Some fname) mk pm dlp []
              = (Inr True,
                 [Call (EditMedia (image_path_of fname) text pm mk) (Some e),
                  Log Error ''Unexpected error while editing menu media %s: %s''
                    [AStr (image_path_of fname), AStr (str_of e)],
                  Call (EditCaption text mk pm) None]))
      \<and> (\<forall>e2. photo_truthy m
              \<and> srf [EditMedia (image_path_of fname) text pm mk, EditCaption text mk pm] = Some e2
              \<and> is_Exception e2 \<longrightarrow>
            calls_of (snd (update_menu_message srf is_file (Some m) text (Some fname) mk pm dlp []))
              = [EditMedia (image_path_of fname) text pm mk, EditCaption text mk pm,
                 EditText text mk pm (if dlp then Some (LinkPreviewOptions True) else None)]
            \<and> ((\<forall>e'. srf [EditMedia (image_path_of fname) text pm mk, EditCaption text mk pm,
                           EditText text mk pm (if dlp then Some (LinkPreviewOptions True) else None)]
                         = Some e' \<longrightarrow> is_Exception e')
               \<longrightarrow> fst (update_menu_message srf is_file (Some m) text (Some fname) mk pm dlp [])
                     = Inr False))
      \<and> ((fst (update_menu_message srf is_file (Some m) text (Some fname) mk pm dlp []) = Inr True)
           = (photo_truthy m
              \<and> srf [EditMedia (image_path_of fname) text pm mk, EditCaption text mk pm] = None))"
proof -
  define lpo where "lpo = (if dlp then Some (LinkPreviewOptions True) else None)"
  define tr2 :: "'a effect list" where
    "tr2 = [Call (EditMedia (image_path_of fname) text pm mk) (Some e),
            Log Error ''Unexpected error while editing menu media %s: %s''
              [AStr (image_path_of fname), AStr (str_of e)]]"
  let ?EM = "EditMedia (image_path_of fname) text pm mk"
  let ?EC = "EditCaption text mk pm"
  let ?ET = "EditText text mk pm lpo"
  let ?out = "existing_caption_stage srf m text mk pm lpo tr2"
  have ctr2: "calls_of tr2 = [?EM]" by (simp add: tr2_def)
  have eq: "update_menu_message srf is_file (Some m) text (Some fname) mk pm dlp [] = ?out"
    using assms
    by (simp add: update_menu_message_def edit_media_stage_def perform_def logging_def Let_def
        lpo_def tr2_def)
  have c1: "take 2 (snd ?out) = tr2"
    using existing_caption_stage_extends [of tr2 srf m "text" mk pm lpo]
    by (simp add: tr2_def numeral_2_eq_2)
  have c2: "calls_of (snd ?out) = [?EM, ?ET]
      \<and> ((\<forall>e'. srf [?EM, ?ET] = Some e' \<longrightarrow> is_Exception e') \<longrightarrow> fst ?out = Inr False)"
    if "\<not> photo_truthy m"
    using that edit_text_stage_false [of srf tr2 "text" mk pm lpo m]
    by (simp add: existing_caption_stage_no_photo edit_text_stage_calls ctr2)
  have c3: "take 2 (calls_of (snd ?out)) = [?EM, ?EC]" if "photo_truthy m"
    using existing_caption_stage_photo_calls [OF that, of srf "text" mk pm lpo tr2]
    by (auto simp: ctr2)
  have c4: "?out = (Inr True, tr2 @ [Call ?EC None])"
    if "photo_truthy m" "srf [?EM, ?EC] = None"
    using that by (simp add: existing_caption_stage_success ctr2)
  have c5: "calls_of (snd ?out) = [?EM, ?EC, ?ET]
      \<and> ((\<forall>e'. srf [?EM, ?EC, ?ET] = Some e' \<longrightarrow> is_Exception e') \<longrightarrow> fst ?out = Inr False)"
    if "photo_truthy m" "srf [?EM, ?EC] = Some e2" "is_Exception e2" for e2
  proof -
    have "srf (calls_of tr2 @ [?EC]) = Some e2" using that(2) by (simp add: ctr2)
    from existing_caption_stage_failure [where srf = srf and tr = tr2 and lpo = lpo
        and ?text = "text" and mk = mk and pm = pm, OF that(1) this that(3)]
    obtain l f as where o: "?out = edit_text_stage srf m text mk pm lpo
        (tr2 @ [Call ?EC (Some e2), Log l f as])"
      by blast
    show ?thesis
      unfolding o
      using edit_text_stage_false [of srf "tr2 @ [Call ?EC (Some e2), Log l f as]" "text" mk pm lpo m]
      by (simp add: edit_text_stage_calls calls_of_append ctr2)
  qed
  have c6: "(fst ?out = Inr True) = (photo_truthy m \<and> srf [?EM, ?EC] = None)"
  proof (cases "photo_truthy m")
    case False
    then show ?thesis
      by (simp add: existing_caption_stage_no_photo edit_text_stage_not_true)
  next
    case True
    show ?thesis
    proof (cases "srf [?EM, ?EC]")
      case None
      with True c4 show ?thesis by simp
    next
      case (Some e2)
      with True show ?thesis
        by (simp add: existing_caption_stage_def perform_def Let_def logging_def ctr2
            edit_text_stage_not_true)
    qed
  qed
  show ?thesis
    unfolding eq lpo_def [symmetric] using c1 c2 c3 c4 c5 c6 unfolding tr2_def by simp
qed

text \<open>
  C8, as stated, fails: the message has a photo, the media edit times out, the caption
  edit succeeds, and the call returns True without any text edit.
\<close>

theorem media_unexpected_error_caption_counterexample:
  "update_menu_message
     (\<lambda>cs::unit call list. if length cs = 1 then Some (PyExn OtherException ''timeout'') else None)
     (\<lambda>p. Inr True) (Some \<lparr>message_id = 7, chat_id = 1, photo = Some [''AgAC'']\<rparr>)
     ''Pay'' (Some ''menu.png'') None (Some ''HTML'') True []
   = (Inr True,
      [Call (EditMedia ''/app/bot/static/images/menu.png'' ''Pay'' (Some ''HTML'') None)
         (Some (PyExn OtherException ''timeout'')),
       Log Error ''Unexpected error while editing menu media %s: %s''
         [AStr ''/app/bot/static/images/menu.png'', AStr ''timeout''],
       Call (EditCaption ''Pay'' None (Some ''HTML'')) None])"
  by (simp add: update_menu_message_def edit_media_stage_def media_rejected_handler_def
      existing_caption_stage_def edit_text_stage_def perform_def logging_def Let_def
      photo_truthy_def image_path_of_def MENU_IMAGES_ROOT_def is_Exception_def)

subsection \<open>The text edit that changes nothing\<close>

lemma call_in_calls_of: "Call c r \<in> set tr \<Longrightarrow> c \<in> set (calls_of tr)"
  by (induction tr rule: calls_of.induct) auto

lemma no_text_call: "no_text tr \<Longrightarrow> Call c r \<in> set tr \<Longrightarrow> \<not> is_edit_text c"
  unfolding no_text_def by (metis call_in_calls_of filter_empty_conv)

lemma no_text_snoc_log [simp]: "no_text (tr @ [Log l f as]) = no_text tr"
  by (simp add: no_text_def calls_of_append)

lemma no_text_snoc_call [simp]: "no_text (tr @ [Call c r]) = (no_text tr \<and> \<not> is_edit_text c)"
  by (simp add: no_text_def calls_of_append)

lemma no_text_snoc_call_log [simp]:
  "no_text (tr @ [Call c r, Log l f as]) = (no_text tr \<and> \<not> is_edit_text c)"
  by (simp add: no_text_def calls_of_append)

lemma reaches_text_stage: "no_text pre \<Longrightarrow> reaches_text srf m text mk pm lpo (edit_text_stage srf m text mk pm lpo pre)"
  unfolding reaches_text_def by blast

lemma reaches_text_done: "no_text tr \<Longrightarrow> reaches_text srf m text mk pm lpo (res, tr)"
  unfolding reaches_text_def by simp

lemma existing_caption_stage_reaches:
  "no_text tr \<Longrightarrow> reaches_text srf m text mk pm lpo (existing_caption_stage srf m text mk pm lpo tr)"
  by (simp add: existing_caption_stage_def perform_def Let_def logging_def
      reaches_text_stage reaches_text_done split: option.splits)

lemma media_rejected_handler_reaches:
  "no_text tr \<Longrightarrow> reaches_text srf m text mk pm lpo (media_rejected_handler srf m p text mk pm lpo tr)"
  by (simp add: media_rejected_handler_def perform_def Let_def logging_def
      existing_caption_stage_reaches reaches_text_done split: option.splits)

lemma edit_media_stage_reaches:
  "no_text tr \<Longrightarrow> reaches_text srf m text mk pm lpo
     (edit_media_stage srf is_file m text image_filename mk pm lpo tr)"
  by (simp add: edit_media_stage_def perform_def Let_def logging_def
      existing_caption_stage_reaches media_rejected_handler_reaches reaches_text_done
      split: option.splits sum.splits bool.splits)

lemma edit_text_stage_trace:
  "snd (edit_text_stage srf m text mk pm lpo tr)
     = tr @ [Call (EditText text mk pm lpo) (srf (calls_of tr @ [EditText text mk pm lpo]))]
    \<or> (\<exists>l f as. snd (edit_text_stage srf m text mk pm lpo tr)
     = tr @ [Call (EditText text mk pm lpo) (srf (calls_of tr @ [EditText text mk pm lpo])),
             Log l f as])"
  by (simp add: edit_text_stage_def perform_def Let_def logging_def split: option.splits)

lemma edit_text_stage_benign:
  assumes "srf (calls_of tr @ [EditText text mk pm lpo]) = Some e"
    and "class_of e = TelegramBadRequest"
    and "contains (lower (str_of e)) ''message is not modified''"
  shows "edit_text_stage srf m text mk pm lpo tr
     = (Inr False, tr @ [Call (EditText text mk pm lpo) (Some e),
          Log Debug ''Menu text not modified for message %s'' [AInt (message_id m)]])"
  using assms by (simp add: edit_text_stage_def perform_def Let_def logging_def)

text \<open>
  C3, as amended. A rejection of the text edit whose reason contains
  \<open>message is not modified\<close> (compared in lower case) is followed by one debug record
  and nothing else: no further edit, no record at error severity, outcome False.
\<close>

theorem text_not_modified_is_benign:
  assumes run: "update_menu_message srf is_file (Some m) text image_filename mk pm dlp [] = (res, tr)"
    and rej: "Call (EditText t k p l) (Some e) \<in> set tr"
    and cls: "class_of e = TelegramBadRequest"
    and sub: "contains (lower (str_of e)) ''message is not modified''"
  shows "res = Inr False
    \<and> (\<exists>pre. tr = pre @ [Call (EditText t k p l) (Some e),
                 Log Debug ''Menu text not modified for message %s'' [AInt (message_id m)]])
    \<and> count_calls is_edit_text tr = 1"
proof -
  define lpo where "lpo = (if dlp then Some (LinkPreviewOptions True) else None)"
  have "reaches_text srf m text mk pm lpo (res, tr)"
    using edit_media_stage_reaches [of "[]" srf m "text" mk pm lpo is_file image_filename] run
    by (simp add: update_menu_message_def lpo_def no_text_def)
  moreover have "\<not> no_text tr"
    using no_text_call [OF _ rej] by auto
  ultimately obtain pre where pre: "no_text pre"
    and out: "(res, tr) = edit_text_stage srf m text mk pm lpo pre"
    unfolding reaches_text_def by auto
  let ?c = "EditText text mk pm lpo"
  let ?r = "srf (calls_of pre @ [?c])"
  from edit_text_stage_trace [of srf m "text" mk pm lpo pre] out
  have shape: "tr = pre @ [Call ?c ?r] \<or> (\<exists>l f as. tr = pre @ [Call ?c ?r, Log l f as])"
    by (metis snd_conv)
  have notpre: "Call (EditText t k p l) (Some e) \<notin> set pre"
    using no_text_call [OF pre] by fastforce
  from shape rej notpre have same: "EditText t k p l = ?c" "?r = Some e"
    by auto
  from edit_text_stage_benign [where srf = srf and tr = pre and m = m, OF same(2) cls sub] out same
  have "res = Inr False" and
    tr: "tr = pre @ [Call (EditText t k p l) (Some e),
            Log Debug ''Menu text not modified for message %s'' [AInt (message_id m)]]"
    by simp_all
  moreover have "count_calls is_edit_text tr = 1"
    using pre unfolding tr by (simp add: count_calls_def calls_of_append no_text_def)
  ultimately show ?thesis by blast
qed

text \<open>
  C3, as stated, fails: a rejection whose reason contains \<open>not modified\<close> but not
  \<open>message is not modified\<close> is logged at error severity.
\<close>

theorem short_not_modified_logs_error:
  "contains (lower ''Bad Request: content not modified'') ''not modified''
   \<and> update_menu_message
       (\<lambda>cs::unit call list. Some (PyExn TelegramBadRequest ''Bad Request: content not modified''))
       (\<lambda>p. Inr False) (Some \<lparr>message_id = 7, chat_id = 1, photo = None\<rparr>)
       ''Pay'' None None (Some ''HTML'') True []
     = (Inr False,
        [Call (EditText ''Pay'' None (Some ''HTML'') (Some (LinkPreviewOptions True)))
           (Some (PyExn TelegramBadRequest ''Bad Request: content not modified'')),
         Log Error ''Failed to edit menu text: %s'' [AStr ''Bad Request: content not modified'']])"
  by (simp add: update_menu_message_def edit_media_stage_def existing_caption_stage_def
      edit_text_stage_def perform_def logging_def Let_def photo_truthy_def lower_def
      lower_char_def startswith_def)

subsection \<open>A missing image file\<close>

lemma calls_of_surface_effects: "calls_of (surface_effects tr) = calls_of tr"
  by (induction tr rule: surface_effects.induct) simp_all

lemma same_calls: "surface_effects tr = surface_effects tr' \<Longrightarrow> calls_of tr = calls_of tr'"
  by (metis calls_of_surface_effects)

lemma edit_text_stage_same:
  assumes "surface_effects tr = surface_effects tr'"
  shows "same_surface (edit_text_stage srf m text mk pm lpo tr)
           (edit_text_stage srf m text mk pm lpo tr')"
  using assms same_calls [OF assms]
  by (simp add: same_surface_def edit_text_stage_def perform_def Let_def logging_def
      surface_effects_append split: option.splits)

lemma existing_caption_stage_same:
  assumes "surface_effects tr = surface_effects tr'"
  shows "same_surface (existing_caption_stage srf m text mk pm lpo tr)
           (existing_caption_stage srf m text mk pm lpo tr')"
proof (cases "photo_truthy m")
  case False
  then show ?thesis
    by (simp add: existing_caption_stage_def edit_text_stage_same [OF assms])
next
  case True
  let ?c = "EditCaption text mk pm"
  have cs: "calls_of tr = calls_of tr'" by (rule same_calls [OF assms])
  show ?thesis
  proof (cases "srf (calls_of tr @ [?c])")
    case None
    with True cs assms show ?thesis
      by (simp add: existing_caption_stage_def perform_def Let_def same_surface_def
          surface_effects_append)
  next
    case (Some e)
    have step: "same_surface
        (edit_text_stage srf m text mk pm lpo (tr @ [Call ?c (Some e), Log l f as]))
        (edit_text_stage srf m text mk pm lpo (tr' @ [Call ?c (Some e), Log l f as]))" for l f as
      by (rule edit_text_stage_same) (simp add: surface_effects_append assms)
    from True Some cs assms show ?thesis
      by (simp add: existing_caption_stage_def perform_def Let_def logging_def step)
         (simp add: same_surface_def surface_effects_append)
  qed
qed

lemma send_text_stage_calls:
  "calls_of (snd (send_text_stage srf m text mk pm dlp tr))
     = calls_of tr @ [SendMessage (chat_id m) text mk pm
                        (if dlp then Some (LinkPreviewOptions True) else None)]"
  by (simp add: send_text_stage_def perform_def Let_def logging_def calls_of_append
      split: option.splits)

lemma update_missing_file:
  assumes "is_file (image_path_of fname) = Inr False"
  shows "same_surface (update_menu_message srf is_file msg text (Some fname) mk pm dlp [])
           (update_menu_message srf is_file msg text None mk pm dlp [])"
proof (cases msg)
  case None
  then show ?thesis by (simp add: update_menu_message_def same_surface_def)
next
  case (Some m)
  have "same_surface (existing_caption_stage srf m text mk pm lpo [Log l f as])
          (existing_caption_stage srf m text mk pm lpo [])" for l f as lpo
    by (rule existing_caption_stage_same) simp
  with Some assms show ?thesis
    by (simp add: update_menu_message_def edit_media_stage_def logging_def Let_def)
       (simp add: same_surface_def)
qed

lemma update_no_image_calls:
  "count_calls is_edit_media (snd (update_menu_message srf is_file msg text None mk pm dlp [])) = 0"
proof (cases msg)
  case None
  then show ?thesis by (simp add: update_menu_message_def logging_def count_calls_def)
next
  case (Some m)
  with existing_caption_stage_calls [of srf m "text" mk pm
      "if dlp then Some (LinkPreviewOptions True) else None" "[]"]
  show ?thesis
    by (auto simp: update_menu_message_def edit_media_stage_def count_calls_def)
qed

lemma render_missing_file:
  assumes "is_file (image_path_of fname) = Inr False"
  shows "same_surface (render_menu_content srf is_file ev text (Some fname) mk pm dlp [])
           (render_menu_content srf is_file ev text None mk pm dlp [])"
proof (cases ev)
  case (CallbackQuery mo)
  show ?thesis
  proof (cases mo)
    case None
    with CallbackQuery show ?thesis
      by (simp add: render_menu_content_def same_surface_def)
  next
    case (Some m)
    with CallbackQuery
      update_missing_file [where is_file = is_file and fname = fname and msg = "Some m"
        and srf = srf and mk = mk and pm = pm and dlp = dlp, OF assms]
    show ?thesis
      by (simp add: render_menu_content_def)
  qed
next
  case (Message m)
  with assms show ?thesis by (simp add: render_menu_content_def same_surface_def)
next
  case OtherEvent
  then show ?thesis by (simp add: render_menu_content_def same_surface_def)
qed

lemma render_no_image_calls:
  "count_calls is_edit_media (snd (render_menu_content srf is_file ev text None mk pm dlp [])) = 0
   \<and> count_calls is_send_photo (snd (render_menu_content srf is_file ev text None mk pm dlp [])) = 0"
proof (cases ev)
  case (CallbackQuery mo)
  show ?thesis
  proof (cases mo)
    case None
    with CallbackQuery show ?thesis
      by (simp add: render_menu_content_def logging_def count_calls_def)
  next
    case (Some m)
    with existing_caption_stage_calls [of srf m "text" mk pm
        "if dlp then Some (LinkPreviewOptions True) else None" "[]"] CallbackQuery
    show ?thesis
      by (auto simp: render_menu_content_def update_menu_message_def edit_media_stage_def
          count_calls_def)
  qed
next
  case (Message m)
  then show ?thesis
    by (simp add: render_menu_content_def count_calls_def send_text_stage_calls)
next
  case OtherEvent
  then show ?thesis by (simp add: render_menu_content_def logging_def count_calls_def)
qed

lemma count_calls_same:
  "surface_effects tr = surface_effects tr' \<Longrightarrow> count_calls P tr = count_calls P tr'"
  using same_calls [of tr tr'] by (simp add: count_calls_def)

lemma update_text_path:
  "calls_of (snd (update_menu_message srf is_file (Some m) text None mk pm dlp []))
     \<in> (if photo_truthy m
         then {[EditCaption text mk pm],
               [EditCaption text mk pm,
                EditText text mk pm (if dlp then Some (LinkPreviewOptions True) else None)]}
         else {[EditText text mk pm (if dlp then Some (LinkPreviewOptions True) else None)]})"
proof (cases "photo_truthy m")
  case True
  with existing_caption_stage_photo_calls [OF True, of srf "text" mk pm
      "if dlp then Some (LinkPreviewOptions True) else None" "[]"]
  show ?thesis by (simp add: update_menu_message_def edit_media_stage_def)
next
  case False
  then show ?thesis
    by (simp add: update_menu_message_def edit_media_stage_def existing_caption_stage_no_photo
        edit_text_stage_calls)
qed

text \<open>
  When the file test returns False, both operations return the same result and perform
  the same operations on the chat surface, with the same outcomes, as when no image is
  named. No media edit and no photo send is made: update mode edits the caption of a
  message that has a photo (and the text after a failed caption edit) and the text of one
  that has none; send mode sends the one plain text message.
\<close>

lemma missing_image_as_absent:
  assumes "is_file (image_path_of fname) = Inr False"
  shows "fst (update_menu_message srf is_file msg text (Some fname) mk pm dlp [])
           = fst (update_menu_message srf is_file msg text None mk pm dlp [])
    \<and> surface_effects (snd (update_menu_message srf is_file msg text (Some fname) mk pm dlp []))
           = surface_effects (snd (update_menu_message srf is_file msg text None mk pm dlp []))
    \<and> fst (render_menu_content srf is_file ev text (Some fname) mk pm dlp [])
           = fst (render_menu_content srf is_file ev text None mk pm dlp [])
    \<and> surface_effects (snd (render_menu_content srf is_file ev text (Some fname) mk pm dlp []))
           = surface_effects (snd (render_menu_content srf is_file ev text None mk pm dlp []))
    \<and> count_calls is_edit_media
         (snd (update_menu_message srf is_file msg text (Some fname) mk pm dlp [])) = 0
    \<and> count_calls is_edit_media
         (snd (render_menu_content srf is_file ev text (Some fname) mk pm dlp [])) = 0
    \<and> count_calls is_send_photo
         (snd (render_menu_content srf is_file ev text (Some fname) mk pm dlp [])) = 0
    \<and> calls_of (snd (update_menu_message srf is_file (Some m) text (Some fname) mk pm dlp []))
         \<in> (if photo_truthy m
             then {[EditCaption text mk pm],
                   [EditCaption text mk pm,
                    EditText text mk pm (if dlp then Some (LinkPreviewOptions True) else None)]}
             else {[EditText text mk pm (if dlp then Some (LinkPreviewOptions True) else None)]})
    \<and> calls_of (snd (render_menu_content srf is_file (Message m) text (Some fname) mk pm dlp []))
         = [SendMessage (chat_id m) text mk pm
              (if dlp then Some (LinkPreviewOptions True) else None)]"
proof -
  have u: "same_surface (update_menu_message srf is_file msg text (Some fname) mk pm dlp [])
           (update_menu_message srf is_file msg text None mk pm dlp [])" for msg
    by (rule update_missing_file [where is_file = is_file and fname = fname, OF assms])
  have r: "same_surface (render_menu_content srf is_file ev text (Some fname) mk pm dlp [])
           (render_menu_content srf is_file ev text None mk pm dlp [])" for ev
    by (rule render_missing_file [where is_file = is_file and fname = fname, OF assms])
  from u have cu: "count_calls P (snd (update_menu_message srf is_file msg text (Some fname) mk pm dlp []))
      = count_calls P (snd (update_menu_message srf is_file msg text None mk pm dlp []))" for P
    unfolding same_surface_def by (blast intro: count_calls_same)
  from r have cr: "count_calls P (snd (render_menu_content srf is_file ev text (Some fname) mk pm dlp []))
      = count_calls P (snd (render_menu_content srf is_file ev text None mk pm dlp []))" for P
    unfolding same_surface_def by (blast intro: count_calls_same)
  have su: "calls_of (snd (update_menu_message srf is_file (Some m) text (Some fname) mk pm dlp []))
      = calls_of (snd (update_menu_message srf is_file (Some m) text None mk pm dlp []))"
    using u [of "Some m"] unfolding same_surface_def by (blast intro: same_calls)
  have sr: "calls_of (snd (render_menu_content srf is_file (Message m) text (Some fname) mk pm dlp []))
      = calls_of (snd (render_menu_content srf is_file (Message m) text None mk pm dlp []))"
    using r [of "Message m"] unfolding same_surface_def by (blast intro: same_calls)
  have tu: "calls_of (snd (update_menu_message srf is_file (Some m) text (Some fname) mk pm dlp []))
         \<in> (if photo_truthy m
             then {[EditCaption text mk pm],
                   [EditCaption text mk pm,
                    EditText text mk pm (if dlp then Some (LinkPreviewOptions True) else None)]}
             else {[EditText text mk pm (if dlp then Some (LinkPreviewOptions True) else None)]})"
    unfolding su by (rule update_text_path)
  have tr: "calls_of (snd (render_menu_content srf is_file (Message m) text (Some fname) mk pm dlp []))
         = [SendMessage (chat_id m) text mk pm
              (if dlp then Some (LinkPreviewOptions True) else None)]"
    unfolding sr by (simp add: render_menu_content_def send_text_stage_calls)
  have rest: "fst (update_menu_message srf is_file msg text (Some fname) mk pm dlp [])
           = fst (update_menu_message srf is_file msg text None mk pm dlp [])
    \<and> surface_effects (snd (update_menu_message srf is_file msg text (Some fname) mk pm dlp []))
           = surface_effects (snd (update_menu_message srf is_file msg text None mk pm dlp []))
    \<and> fst (render_menu_content srf is_file ev text (Some fname) mk pm dlp [])
           = fst (render_menu_content srf is_file ev text None mk pm dlp [])
    \<and> surface_effects (snd (render_menu_content srf is_file ev text (Some fname) mk pm dlp []))
           = surface_effects (snd (render_menu_content srf is_file ev text None mk pm dlp []))
    \<and> count_calls is_edit_media
         (snd (update_menu_message srf is_file msg text (Some fname) mk pm dlp [])) = 0
    \<and> count_calls is_edit_media
         (snd (render_menu_content srf is_file ev text (Some fname) mk pm dlp [])) = 0
    \<and> count_calls is_send_photo
         (snd (render_menu_content srf is_file ev text (Some fname) mk pm dlp [])) = 0"
    using u [of msg] r [of ev] update_no_image_calls [of srf is_file msg "text" mk pm dlp]
      render_no_image_calls [of srf is_file ev "text" mk pm dlp]
    unfolding cu cr same_surface_def by simp
  from rest tu tr show ?thesis by blast
qed

text \<open>
  C4 fails on the code where the file test itself raises. A name of 256 characters names
  no file, and \<open>stat\<close> answers it with \<open>ENAMETOOLONG\<close>: the test of lines 38 and 165
  raises \<open>OSError\<close> outside every \<open>try\<close>, so both operations raise before any
  operation on the chat surface, while the same request without an image edits the text,
  or sends it, and returns False.
\<close>

theorem missing_image_file_test_raises:
  "update_menu_message (\<lambda>cs::unit call list. None)
       (\<lambda>p. if p = image_path_of (replicate 256 CHR ''a'')
            then Inl (PyExn OSError ''[Errno 36] File name too long'') else Inr False)
       (Some \<lparr>message_id = 7, chat_id = 1, photo = None\<rparr>)
       ''Pay'' (Some (replicate 256 CHR ''a'')) None (Some ''HTML'') True []
     = (Inl (PyExn OSError ''[Errno 36] File name too long''), [])
   \<and> update_menu_message (\<lambda>cs::unit call list. None)
       (\<lambda>p. if p = image_path_of (replicate 256 CHR ''a'')
            then Inl (PyExn OSError ''[Errno 36] File name too long'') else Inr False)
       (Some \<lparr>message_id = 7, chat_id = 1, photo = None\<rparr>)
       ''Pay'' None None (Some ''HTML'') True []
     = (Inr False,
        [Call (EditText ''Pay'' None (Some ''HTML'') (Some (LinkPreviewOptions True))) None])
   \<and> render_menu_content (\<lambda>cs::unit call list. None)
       (\<lambda>p. if p = image_path_of (replicate 256 CHR ''a'')
            then Inl (PyExn OSError ''[Errno 36] File name too long'') else Inr False)
       (Message \<lparr>message_id = 7, chat_id = 1, photo = None\<rparr>)
       ''Pay'' (Some (replicate 256 CHR ''a'')) None (Some ''HTML'') True []
     = (Inl (PyExn OSError ''[Errno 36] File name too long''), [])
   \<and> render_menu_content (\<lambda>cs::unit call list. None)
       (\<lambda>p. if p = image_path_of (replicate 256 CHR ''a'')
            then Inl (PyExn OSError ''[Errno 36] File name too long'') else Inr False)
       (Message \<lparr>message_id = 7, chat_id = 1, photo = None\<rparr>)
       ''Pay'' None None (Some ''HTML'') True []
     = (Inr False,
        [Call (SendMessage 1 ''Pay'' None (Some ''HTML'') (Some (LinkPreviewOptions True))) None])"
  by (simp add: update_menu_message_def render_menu_content_def edit_media_stage_def
      existing_caption_stage_def edit_text_stage_def send_text_stage_def perform_def
      Let_def photo_truthy_def)

subsection \<open>The theorems at concrete requests\<close>

theorem text_not_modified_is_benign_witness:
  "update_menu_message
       (\<lambda>cs::unit call list. Some (PyExn TelegramBadRequest ''Bad Request: message is not modified''))
       (\<lambda>p. Inr False) (Some \<lparr>message_id = 7, chat_id = 1, photo = None\<rparr>)
       ''Pay'' None None (Some ''HTML'') True []
     = (Inr False,
        [Call (EditText ''Pay'' None (Some ''HTML'') (Some (LinkPreviewOptions True)))
           (Some (PyExn TelegramBadRequest ''Bad Request: message is not modified'')),
         Log Debug ''Menu text not modified for message %s'' [AInt 7]])
   \<and> contains (lower ''Bad Request: message is not modified'') ''message is not modified''
   \<and> count_calls is_edit_text
        [Call (EditText ''Pay'' (None :: unit option) (Some ''HTML'') (Some (LinkPreviewOptions True)))
           (Some (PyExn TelegramBadRequest ''Bad Request: message is not modified'')),
         Log Debug ''Menu text not modified for message %s'' [AInt 7]] = 1"
proof -
  let ?e = "PyExn TelegramBadRequest ''Bad Request: message is not modified''"
  let ?tr = "[Call (EditText ''Pay'' None (Some ''HTML'') (Some (LinkPreviewOptions True))) (Some ?e),
         Log Debug ''Menu text not modified for message %s'' [AInt 7]] :: unit effect list"
  have sub: "contains (lower (str_of ?e)) ''message is not modified''"
    by (simp add: lower_def lower_char_def startswith_def)
  have run: "update_menu_message (\<lambda>cs::unit call list. Some ?e)
       (\<lambda>p. Inr False) (Some \<lparr>message_id = 7, chat_id = 1, photo = None\<rparr>)
       ''Pay'' None None (Some ''HTML'') True [] = (Inr False, ?tr)"
    using sub
    by (simp add: update_menu_message_def edit_media_stage_def existing_caption_stage_def
        edit_text_stage_def perform_def logging_def Let_def photo_truthy_def)
  have mem: "Call (EditText ''Pay'' None (Some ''HTML'') (Some (LinkPreviewOptions True))) (Some ?e)
      \<in> set ?tr" by simp
  have cls: "class_of ?e = TelegramBadRequest" by simp
  from text_not_modified_is_benign [OF run mem cls sub] run sub show ?thesis by simp
qed

theorem send_mode_single_fallback_witness:
  "''menu.png'' \<noteq> [] \<and> (\<lambda>p. Inr True) (image_path_of ''menu.png'') = (Inr True :: pyexn + bool)
   \<and> render_menu_content (\<lambda>cs::unit call list. Some (PyExn OtherException ''timeout''))
        (\<lambda>p. Inr True) (Message \<lparr>message_id = 7, chat_id = 42, photo = None\<rparr>)
        ''Pay'' (Some ''menu.png'') None (Some ''HTML'') True []
      = (Inr False,
         [Call (SendPhoto 42 ''/app/bot/static/images/menu.png'' ''Pay'' None (Some ''HTML''))
            (Some (PyExn OtherException ''timeout'')),
          Log Warning ''Failed to send menu photo %s: %s''
            [AStr ''/app/bot/static/images/menu.png'', AStr ''timeout''],
          Call (SendMessage 42 ''Pay'' None (Some ''HTML'') (Some (LinkPreviewOptions True)))
            (Some (PyExn OtherException ''timeout'')),
          Log Error ''Failed to send menu text: %s'' [AStr ''timeout'']])"
  using send_mode_single_fallback [where fname = "''menu.png''" and is_file = "\<lambda>p. Inr True"
      and srf = "\<lambda>cs::unit call list. Some (PyExn OtherException ''timeout'')"
      and m = "\<lparr>message_id = 7, chat_id = 42, photo = None\<rparr>"
      and mk = None and pm = "Some ''HTML''" and dlp = True]
  by (simp add: render_menu_content_def send_text_stage_def perform_def logging_def Let_def
      image_path_of_def MENU_IMAGES_ROOT_def is_Exception_def)

theorem media_unexpected_error_falls_to_caption_witness:
  "''menu.png'' \<noteq> [] \<and> (\<lambda>p. Inr True) (image_path_of ''menu.png'') = (Inr True :: pyexn + bool)
   \<and> class_of (PyExn OtherException ''timeout'') \<noteq> TelegramBadRequest
   \<and> is_Exception (PyExn OtherException ''timeout'')
   \<and> photo_truthy \<lparr>message_id = 7, chat_id = 1, photo = Some [''AgAC'']\<rparr>
   \<and> calls_of (snd (update_menu_message
        (\<lambda>cs::unit call list. if length cs \<le> 2 then Some (PyExn OtherException ''timeout'') else None)
        (\<lambda>p. Inr True) (Some \<lparr>message_id = 7, chat_id = 1, photo = Some [''AgAC'']\<rparr>)
        ''Pay'' (Some ''menu.png'') None (Some ''HTML'') True []))
      = [EditMedia (image_path_of ''menu.png'') ''Pay'' (Some ''HTML'') None,
         EditCaption ''Pay'' None (Some ''HTML''),
         EditText ''Pay'' None (Some ''HTML'') (Some (LinkPreviewOptions True))]
   \<and> fst (update_menu_message
        (\<lambda>cs::unit call list. if length cs \<le> 2 then Some (PyExn OtherException ''timeout'') else None)
        (\<lambda>p. Inr True) (Some \<lparr>message_id = 7, chat_id = 1, photo = Some [''AgAC'']\<rparr>)
        ''Pay'' (Some ''menu.png'') None (Some ''HTML'') True [])
      = Inr False"
proof -
  let ?srf = "\<lambda>cs::unit call list. if length cs \<le> 2 then Some (PyExn OtherException ''timeout'') else None"
  let ?m = "\<lparr>message_id = 7, chat_id = 1, photo = Some [''AgAC'']\<rparr>"
  have h1: "''menu.png'' \<noteq> []" by simp
  have h2: "(\<lambda>p. Inr True) (image_path_of ''menu.png'') = (Inr True :: pyexn + bool)" by simp
  have h3: "?srf [EditMedia (image_path_of ''menu.png'') ''Pay'' (Some ''HTML'') None]
      = Some (PyExn OtherException ''timeout'')" by simp
  have h4: "class_of (PyExn OtherException ''timeout'') \<noteq> TelegramBadRequest" by simp
  have h5: "is_Exception (PyExn OtherException ''timeout'')" by (simp add: is_Exception_def)
  have p: "photo_truthy ?m" by (simp add: photo_truthy_def)
  from media_unexpected_error_falls_to_caption [where is_file = "\<lambda>p. Inr True" and srf = ?srf
      and m = ?m and dlp = True, OF h1 h2 h3 h4 h5] p h1 h4 h5
  show ?thesis by simp
qed


section \<open>PaymentLinkFlow: the payload\<close>

subsection \<open>The conversions at the payloads of the examples\<close>


lemma d_3: "digitpart ''3'' = (''3'', [])" by (simp add: is_digit_def digitpart.simps)
lemma d_10: "digitpart ''10'' = (''10'', [])" by (simp add: is_digit_def digitpart.simps)
lemma d_5: "digitpart ''5'' = (''5'', [])" by (simp add: is_digit_def digitpart.simps)
lemma d_999: "digitpart ''9.99'' = (''9'', ''.99'')" by (simp add: is_digit_def digitpart.simps)
lemma d_99: "digitpart ''99'' = (''99'', [])" by (simp add: is_digit_def digitpart.simps)
lemma d_abc: "digitpart ''abc'' = ([], ''abc'')" by (simp add: is_digit_def digitpart.simps)

lemma exponent_of_Nil: "exponent_of [] = Some 0" by (simp add: exponent_of_def)

lemma r_3: "round_to_double False 3 1 = Finite 3"
  by (simp add: round_to_double_def round_half_even_def pow2_def Let_def bit_length.simps)
lemma r_10: "round_to_double False 10 1 = Finite 10"
  by (simp add: round_to_double_def round_half_even_def pow2_def Let_def bit_length.simps)
lemma r_5: "round_to_double b 5 1 = Finite (if b then - 5 else 5)"
  by (simp add: round_to_double_def round_half_even_def pow2_def Let_def bit_length.simps)
lemma r_999: "round_to_double False 999 100 = Finite (5623870034678907 / 562949953421312)"
  by (simp add: round_to_double_def round_half_even_def pow2_def Let_def bit_length.simps)

lemma r_3': "round_to_double False 3 (Suc 0) = Finite 3" using r_3 by simp
lemma r_10': "round_to_double False 10 (Suc 0) = Finite 10" using r_10 by simp
lemma r_5': "round_to_double b 5 (Suc 0) = Finite (if b then - 5 else 5)" using r_5 [of b] by simp

lemma py_float_3: "py_float ''3'' = Inr (Finite 3)"
  by (simp add: py_float_def strip_def is_float_space_def lower_def lower_char_def
      float_of_number_def d_3 exponent_of_Nil nat_of_digits_def digit_val_def r_3')
lemma py_float_10: "py_float ''10'' = Inr (Finite 10)"
  by (simp add: py_float_def strip_def is_float_space_def lower_def lower_char_def
      float_of_number_def d_10 exponent_of_Nil nat_of_digits_def digit_val_def r_10')
lemma py_float_5: "py_float ''5'' = Inr (Finite 5)"
  by (simp add: py_float_def strip_def is_float_space_def lower_def lower_char_def
      float_of_number_def d_5 exponent_of_Nil nat_of_digits_def digit_val_def r_5')
lemma py_float_9_99: "py_float ''9.99'' = Inr (Finite (5623870034678907 / 562949953421312))"
  by (simp add: py_float_def strip_def is_float_space_def lower_def lower_char_def
      float_of_number_def d_999 d_99 exponent_of_Nil nat_of_digits_def digit_val_def r_999)
lemma py_float_abc: "py_float ''abc'' = Inl (float_value_error ''abc'')"
  by (simp add: py_float_def strip_def is_float_space_def lower_def lower_char_def
      float_of_number_def d_abc)
lemma py_float_inf: "py_float ''inf'' = Inr PosInf"
  by (simp add: py_float_def strip_def is_float_space_def lower_def lower_char_def)

lemma parse_3_9_99: "parse_payload ''pay_crypto:3:9.99''
    = Inr (Finite 3, Finite (5623870034678907 / 562949953421312), ''subscription'')"
  by (simp add: parse_payload_def split_once_def py_float_3 py_float_9_99)
lemma parse_10_5_traffic: "parse_payload ''pay_crypto:10:5:traffic'' = Inr (Finite 10, Finite 5, ''traffic'')"
  by (simp add: parse_payload_def split_once_def py_float_10 py_float_5)
lemma parse_abc: "parse_payload ''pay_crypto:abc'' = Inl (float_value_error ''abc'')"
  by (simp add: parse_payload_def split_once_def py_float_abc)
lemma parse_inf_5: "parse_payload ''pay_crypto:inf:5'' = Inr (PosInf, Finite 5, ''subscription'')"
  by (simp add: parse_payload_def split_once_def py_float_inf py_float_5)
lemma parse_inf_5_traffic:
  "parse_payload ''pay_crypto:inf:5:traffic'' = Inr (PosInf, Finite 5, ''traffic'')"
  by (simp add: parse_payload_def split_once_def py_float_inf py_float_5)

text \<open>
  C2. The payload \<open>pay_crypto:3:9.99\<close> is parsed to quantity 3, the double nearest to
  9.99 (within half a unit in the last place, \<open>2 ^ -50\<close>) and the default sale mode
  \<open>subscription\<close>; \<open>pay_crypto:10:5:traffic\<close> to 10, 5 and \<open>traffic\<close>; and
  \<open>pay_crypto:abc\<close> fails with a \<open>ValueError\<close>: the handler answers with the retry
  alert, its only call, so the gateway is never asked for an invoice.
\<close>

theorem payload_parse_examples:
  assumes "i18n_instance idata = Some g" and "cb_message cb = Some m"
    and "data cb = ''pay_crypto:abc''" and "configured svc"
  shows "parse_payload ''pay_crypto:3:9.99''
           = Inr (Finite 3, Finite (5623870034678907 / 562949953421312), ''subscription'')
    \<and> \<bar>5623870034678907 / 562949953421312 - 999 / 100\<bar> \<le> (1 / 2 ^ 50 :: rat)
    \<and> parse_payload ''pay_crypto:10:5:traffic'' = Inr (Finite 10, Finite 5, ''traffic'')
    \<and> parse_payload ''pay_crypto:abc'' = Inl (float_value_error ''abc'')
    \<and> class_of (float_value_error ''abc'') = ValueError
    \<and> pay_crypto_callback_handler wld is_file fmt cb st idata (Some svc) []
          = answer_and_return wld
              (Some (g (case current_language idata of Some l \<Rightarrow> l | None \<Rightarrow> DEFAULT_LANGUAGE st)
                       ''error_try_again'' [])) True []
    \<and> hcalls_of (snd (pay_crypto_callback_handler wld is_file fmt cb st idata (Some svc) []))
          = [Answer
               (Some (g (case current_language idata of Some l \<Rightarrow> l | None \<Rightarrow> DEFAULT_LANGUAGE st)
                        ''error_try_again'' [])) True]"
proof -
  have run: "pay_crypto_callback_handler wld is_file fmt cb st idata (Some svc) []
      = answer_and_return wld
          (Some (g (case current_language idata of Some l \<Rightarrow> l | None \<Rightarrow> DEFAULT_LANGUAGE st)
                   ''error_try_again'' [])) True []"
    using assms
    by (simp add: pay_crypto_callback_handler_def parse_abc float_value_error_def)
  have calls: "hcalls_of (snd (answer_and_return wld t a [])) = [Answer t a]" for t a
    by (simp add: answer_and_return_def hperform_def Let_def split: hresult.splits)
  have near: "\<bar>5623870034678907 / 562949953421312 - 999 / 100\<bar> \<le> (1 / 2 ^ 50 :: rat)"
    by simp
  show ?thesis
    unfolding run calls
    using near by (simp add: parse_3_9_99 parse_10_5_traffic parse_abc float_value_error_def)
qed

text \<open>
  C9 fails on the code: \<open>float\<close> accepts \<open>inf\<close>, so the payload passes the parse
  step, and \<open>int(months)\<close> at line 59, outside every \<open>try\<close>, raises
  \<open>OverflowError\<close>: the handler raises before any call, without the alert. In traffic
  mode the same conversion is first made at line 76: the invoice has been created when
  the handler raises.
\<close>

theorem infinite_quantity_raises:
  "pay_crypto_callback_handler wld is_file fmt
     \<lparr>data = ''pay_crypto:inf:5'',
      cb_message = Some \<lparr>message_id = 7, chat_id = 1, photo = None\<rparr>,
      from_user_id = 42\<rparr>
     \<lparr>DEFAULT_LANGUAGE = ''en'', DEFAULT_CURRENCY_SYMBOL = ''USD''\<rparr>
     \<lparr>current_language = Some ''en'', i18n_instance = Some (\<lambda>lang key kwargs. key)\<rparr>
     (Some \<lparr>configured = True\<rparr>) []
   = (Inl (PyExn OverflowError ''cannot convert float infinity to integer''), [])
   \<and> pay_crypto_callback_handler (\<lambda>cs. Returned (Some ''https://pay.example/1'')) is_file fmt
     \<lparr>data = ''pay_crypto:inf:5:traffic'',
      cb_message = Some \<lparr>message_id = 7, chat_id = 1, photo = None\<rparr>,
      from_user_id = 42\<rparr>
     \<lparr>DEFAULT_LANGUAGE = ''en'', DEFAULT_CURRENCY_SYMBOL = ''USD''\<rparr>
     \<lparr>current_language = Some ''en'', i18n_instance = Some (\<lambda>lang key kwargs. key)\<rparr>
     (Some \<lparr>configured = True\<rparr>) []
   = (Inl (PyExn OverflowError ''cannot convert float infinity to integer''),
      [HCall (CreateInvoice 42 PosInf (Finite 5) ''payment_description_traffic'' ''traffic'')
         (Returned (Some ''https://pay.example/1''))])"
  by (simp add: pay_crypto_callback_handler_def parse_inf_5 parse_inf_5_traffic after_parse_def
      hperform_def Let_def)

subsection \<open>Which payloads are rejected\<close>

lemma hcalls_of_append: "hcalls_of (xs @ ys) = hcalls_of xs @ hcalls_of ys"
  by (induction xs rule: hcalls_of.induct) simp_all









lemma answer_and_return_calls:
  "hcalls_of (snd (answer_and_return wld t a tr)) = hcalls_of tr @ [Answer t a]"
  by (simp add: answer_and_return_def hperform_def Let_def hcalls_of_append split: hresult.splits)





section \<open>PaymentLinkFlow: showing the payment link\<close>

lemma no_render_mem: "no_render tr \<Longrightarrow> HCall c r \<in> set tr \<Longrightarrow> \<not> is_render c"
proof (induction tr rule: hcalls_of.induct)
  case 1
  then show ?case by simp
next
  case (2 c' r' es)
  then show ?case by (auto simp: no_render_def split: if_splits)
qed

lemma no_render_answer: "no_render tr \<Longrightarrow> no_render (snd (answer_and_return wld t a tr))"
  by (simp add: no_render_def answer_and_return_calls)

lemma answer_and_return_wex:
  assumes "world_raises_only_exceptions wld"
  shows "answer_and_return wld t a tr
     = (Inr (), tr @ [HCall (Answer t a) (wld (hcalls_of tr @ [Answer t a]))])"
proof (cases "wld (hcalls_of tr @ [Answer t a])")
  case (Raised e)
  with assms have "is_Exception e" by (auto simp: world_raises_only_exceptions_def)
  with Raised show ?thesis by (simp add: answer_and_return_def hperform_def Let_def)
next
  case (Returned v)
  then show ?thesis by (simp add: answer_and_return_def hperform_def Let_def)
qed

lemma after_parse_reaches:
  "reaches_display wld is_file (after_parse wld is_file fmt g lang st cb msg q p sm [])"
proof -
  have nr: "no_render []" "no_render [HCall (CreateInvoice u q' p' d s) r]" for u q' p' d s r
    by (simp_all add: no_render_def)
  have d: "url \<noteq> [] \<Longrightarrow> reaches_display wld is_file
      (display_payment_link wld is_file msg t k [HCall (CreateInvoice u q' p' d s) (Returned (Some url))])"
    for url t k u q' p' d s
    unfolding reaches_display_def by (rule disjI2) (use is_create_invoice.simps(1) in blast)
  have a: "reaches_display wld is_file (answer_and_return wld t a [HCall (CreateInvoice u q' p' d s) r])"
    for t a u q' p' d s r
    unfolding reaches_display_def by (rule disjI1) (simp add: no_render_answer nr)
  have e: "reaches_display wld is_file (x, [])"
    "reaches_display wld is_file (x, [HCall (CreateInvoice u q' p' d s) r])" for x u q' p' d s r
    by (simp_all add: reaches_display_def nr)
  show ?thesis
    by (simp add: after_parse_def hperform_def Let_def a d e
        split: sum.splits hresult.splits option.splits)
qed

lemma handler_reaches_display:
  "reaches_display wld is_file (pay_crypto_callback_handler wld is_file fmt cb st idata svc [])"
proof -
  have a: "reaches_display wld is_file (answer_and_return wld t a [])" for t a
    using no_render_answer [of "[]" wld t a] by (simp add: reaches_display_def no_render_def)
  have e: "reaches_display wld is_file (x, [])" for x
    by (simp add: reaches_display_def no_render_def)
  show ?thesis
    by (simp add: pay_crypto_callback_handler_def Let_def a e after_parse_reaches
        split: option.splits sum.splits prod.splits)
qed

lemma display_payment_link_fallback:
  assumes nr: "no_render tr0"
    and raised: "HCall (RenderSubscribeMenu m' t' k') (Raised e)
        \<in> set (snd (display_payment_link wld is_file m t k tr0))"
    and wex: "world_raises_only_exceptions wld"
    and lex: "\<forall>le. menu_image_if_exists is_file ''menu_subscribe.png'' = Inl le \<longrightarrow> is_Exception le"
  shows "m' = m \<and> t' = t \<and> k' = k
    \<and> display_payment_link wld is_file m t k tr0
      = (Inr (),
         tr0 @ [HCall (RenderSubscribeMenu m t k) (Raised e)]
           @ (case menu_image_if_exists is_file ''menu_subscribe.png'' of
                Inr mi \<Rightarrow>
                  [HCall (SendMenuWithImage m t mi k)
                     (wld (hcalls_of tr0 @ [RenderSubscribeMenu m t k, SendMenuWithImage m t mi k]))]
              | Inl le \<Rightarrow> [])
           @ [HCall (Answer None False)
                (wld (hcalls_of tr0 @ [RenderSubscribeMenu m t k]
                   @ (case menu_image_if_exists is_file ''menu_subscribe.png'' of
                        Inr mi \<Rightarrow> [SendMenuWithImage m t mi k] | Inl le \<Rightarrow> [])
                   @ [Answer None False]))])"
proof -
  let ?R = "RenderSubscribeMenu m t k"
  have notin: "HCall (RenderSubscribeMenu m' t' k') (Raised e) \<notin> set tr0"
    using no_render_mem [OF nr] by fastforce
  show ?thesis
  proof (cases "wld (hcalls_of tr0 @ [?R])")
    case (Returned v)
    then have "display_payment_link wld is_file m t k tr0
        = (Inr (), tr0 @ [HCall ?R (Returned v),
             HCall (Answer None False) (wld (hcalls_of tr0 @ [?R, Answer None False]))])"
      by (simp add: display_payment_link_def hperform_def Let_def answer_and_return_wex [OF wex]
          hcalls_of_append)
    with raised notin show ?thesis by simp
  next
    case (Raised e0)
    with wex have ex0: "is_Exception e0" by (auto simp: world_raises_only_exceptions_def)
    show ?thesis
    proof (cases "menu_image_if_exists is_file ''menu_subscribe.png''")
      case (Inl le)
      with lex have "is_Exception le" by simp
      with Raised ex0 Inl have eq: "display_payment_link wld is_file m t k tr0
          = (Inr (), tr0 @ [HCall ?R (Raised e0),
               HCall (Answer None False) (wld (hcalls_of tr0 @ [?R, Answer None False]))])"
        by (simp add: display_payment_link_def hperform_def Let_def answer_and_return_wex [OF wex]
            hcalls_of_append)
      with raised notin have "m' = m \<and> t' = t \<and> k' = k \<and> e0 = e" by auto
      with eq Inl show ?thesis by simp
    next
      case (Inr mi)
      let ?S = "SendMenuWithImage m t mi k"
      have "wld (hcalls_of tr0 @ [?R, ?S]) = Raised e2 \<Longrightarrow> is_Exception e2" for e2
        using wex by (auto simp: world_raises_only_exceptions_def)
      with Raised ex0 Inr have eq: "display_payment_link wld is_file m t k tr0
          = (Inr (), tr0 @ [HCall ?R (Raised e0), HCall ?S (wld (hcalls_of tr0 @ [?R, ?S])),
               HCall (Answer None False) (wld (hcalls_of tr0 @ [?R, ?S, Answer None False]))])"
        by (cases "wld (hcalls_of tr0 @ [?R, ?S])")
           (simp_all add: display_payment_link_def hperform_def Let_def
              answer_and_return_wex [OF wex] hcalls_of_append)
      with raised notin have "m' = m \<and> t' = t \<and> k' = k \<and> e0 = e" by auto
      with eq Inr show ?thesis by simp
    qed
  qed
qed

text \<open>
  C6. When the gateway has returned a URL and \<open>render_subscribe_menu\<close> raises,
  \<open>_send_menu_with_image\<close> is called exactly once, with the same message, text and
  keyboard and the image the lookup returned; whether that call returns or raises, the
  interaction is then acknowledged with \<open>callback.answer()\<close> (no text, no alert) and the
  handler returns. Nothing else is called. Should the image lookup itself raise inside the
  second \<open>try\<close>, that error is swallowed too and the acknowledgement follows at once.
\<close>

theorem display_fallback_once:
  assumes run: "pay_crypto_callback_handler wld is_file fmt cb st idata svc [] = (res, tr)"
    and raised: "HCall (RenderSubscribeMenu m t k) (Raised e) \<in> set tr"
    and wex: "world_raises_only_exceptions wld"
    and lex: "\<forall>le. menu_image_if_exists is_file ''menu_subscribe.png'' = Inl le \<longrightarrow> is_Exception le"
  shows "res = Inr ()
    \<and> (\<exists>c url r3. is_create_invoice c \<and> url \<noteq> [] \<and>
         tr = [HCall c (Returned (Some url)), HCall (RenderSubscribeMenu m t k) (Raised e)]
              @ (case menu_image_if_exists is_file ''menu_subscribe.png'' of
                   Inr mi \<Rightarrow>
                     [HCall (SendMenuWithImage m t mi k)
                        (wld [c, RenderSubscribeMenu m t k, SendMenuWithImage m t mi k])]
                 | Inl le \<Rightarrow> [])
              @ [HCall (Answer None False) r3])
    \<and> hcount is_render tr = 1
    \<and> hcount is_send_menu tr
        = (case menu_image_if_exists is_file ''menu_subscribe.png'' of Inr mi \<Rightarrow> 1 | Inl le \<Rightarrow> 0)"
proof -
  have "\<not> no_render tr" using no_render_mem [OF _ raised] by auto
  with handler_reaches_display [of wld is_file fmt cb st idata svc] run
  obtain c url m0 t0 k0 where c: "is_create_invoice c" "url \<noteq> []"
    and out: "(res, tr) = display_payment_link wld is_file m0 t0 k0 [HCall c (Returned (Some url))]"
    unfolding reaches_display_def by auto
  let ?tr0 = "[HCall c (Returned (Some url))]"
  have nr: "no_render ?tr0" using c(1) by (cases c) (simp_all add: no_render_def)
  have mem: "HCall (RenderSubscribeMenu m t k) (Raised e)
      \<in> set (snd (display_payment_link wld is_file m0 t0 k0 ?tr0))"
    using raised out by (metis snd_conv)
  from display_payment_link_fallback [OF nr mem wex lex] out
  have same: "m = m0" "t = t0" "k = k0" and res: "res = Inr ()"
    and tr: "tr = ?tr0 @ [HCall (RenderSubscribeMenu m0 t0 k0) (Raised e)]
           @ (case menu_image_if_exists is_file ''menu_subscribe.png'' of
                Inr mi \<Rightarrow>
                  [HCall (SendMenuWithImage m0 t0 mi k0)
                     (wld (hcalls_of ?tr0 @ [RenderSubscribeMenu m0 t0 k0, SendMenuWithImage m0 t0 mi k0]))]
              | Inl le \<Rightarrow> [])
           @ [HCall (Answer None False)
                (wld (hcalls_of ?tr0 @ [RenderSubscribeMenu m0 t0 k0]
                   @ (case menu_image_if_exists is_file ''menu_subscribe.png'' of
                        Inr mi \<Rightarrow> [SendMenuWithImage m0 t0 mi k0] | Inl le \<Rightarrow> [])
                   @ [Answer None False]))]"
    by simp_all
  have cnt: "hcount is_render tr = 1
    \<and> hcount is_send_menu tr
        = (case menu_image_if_exists is_file ''menu_subscribe.png'' of Inr mi \<Rightarrow> 1 | Inl le \<Rightarrow> 0)"
    unfolding tr using c(1)
    by (cases c; cases "menu_image_if_exists is_file ''menu_subscribe.png''")
       (simp_all add: hcount_def)
  have shape: "\<exists>c url r3. is_create_invoice c \<and> url \<noteq> [] \<and>
         tr = [HCall c (Returned (Some url)), HCall (RenderSubscribeMenu m t k) (Raised e)]
              @ (case menu_image_if_exists is_file ''menu_subscribe.png'' of
                   Inr mi \<Rightarrow>
                     [HCall (SendMenuWithImage m t mi k)
                        (wld [c, RenderSubscribeMenu m t k, SendMenuWithImage m t mi k])]
                 | Inl le \<Rightarrow> [])
              @ [HCall (Answer None False) r3]"
  proof (cases "menu_image_if_exists is_file ''menu_subscribe.png''")
    case (Inl le)
    with c tr show ?thesis
      unfolding same by (intro exI [of _ c] exI [of _ url]) simp
  next
    case (Inr mi)
    with c tr show ?thesis
      unfolding same by (intro exI [of _ c] exI [of _ url]) simp
  qed
  from res shape cnt show ?thesis by blast
qed

subsection \<open>The theorems at concrete payloads\<close>

theorem payload_parse_examples_witness:
  "hcalls_of (snd (pay_crypto_callback_handler (\<lambda>cs. Returned None) (\<lambda>p. Inr False)
       \<lparr>format_g = (\<lambda>x. []), float_str = (\<lambda>x. [])\<rparr>
       \<lparr>data = ''pay_crypto:abc'',
        cb_message = Some \<lparr>message_id = 7, chat_id = 1, photo = None\<rparr>,
        from_user_id = 42\<rparr>
       \<lparr>DEFAULT_LANGUAGE = ''en'', DEFAULT_CURRENCY_SYMBOL = ''USD''\<rparr>
       \<lparr>current_language = Some ''en'', i18n_instance = Some (\<lambda>lang key kwargs. key)\<rparr>
       (Some \<lparr>configured = True\<rparr>) []))
   = [Answer (Some ''error_try_again'') True]"
  using payload_parse_examples [where wld = "\<lambda>cs. Returned None" and is_file = "\<lambda>p. Inr False"
      and fmt = "\<lparr>format_g = (\<lambda>x. []), float_str = (\<lambda>x. [])\<rparr>"
      and cb = "\<lparr>data = ''pay_crypto:abc'',
        cb_message = Some \<lparr>message_id = 7, chat_id = 1, photo = None\<rparr>,
        from_user_id = 42\<rparr>"
      and st = "\<lparr>DEFAULT_LANGUAGE = ''en'', DEFAULT_CURRENCY_SYMBOL = ''USD''\<rparr>"
      and idata = "\<lparr>current_language = Some ''en'', i18n_instance = Some (\<lambda>lang key kwargs. key)\<rparr>"
      and svc = "\<lparr>configured = True\<rparr>" and g = "\<lambda>lang key kwargs. key"
      and m = "\<lparr>message_id = 7, chat_id = 1, photo = None\<rparr>"]
  by (simp add: answer_and_return_calls)


theorem display_fallback_once_witness:
  "world_raises_only_exceptions
     (\<lambda>cs. if length cs = 1 then Returned (Some ''https://pay.example/1'')
           else Raised (PyExn OtherException ''timeout''))
   \<and> pay_crypto_callback_handler
       (\<lambda>cs. if length cs = 1 then Returned (Some ''https://pay.example/1'')
             else Raised (PyExn OtherException ''timeout''))
       (\<lambda>p. Inr True)
       \<lparr>format_g = (\<lambda>x. ''10''), float_str = (\<lambda>x. ''5.0'')\<rparr>
       \<lparr>data = ''pay_crypto:10:5:traffic'',
        cb_message = Some \<lparr>message_id = 7, chat_id = 1, photo = None\<rparr>,
        from_user_id = 42\<rparr>
       \<lparr>DEFAULT_LANGUAGE = ''en'', DEFAULT_CURRENCY_SYMBOL = ''USD''\<rparr>
       \<lparr>current_language = Some ''en'', i18n_instance = Some (\<lambda>lang key kwargs. key)\<rparr>
       (Some \<lparr>configured = True\<rparr>) []
     = (Inr (),
        [HCall (CreateInvoice 42 (Finite 10) (Finite 5) ''payment_description_traffic'' ''traffic'')
           (Returned (Some ''https://pay.example/1'')),
         HCall (RenderSubscribeMenu \<lparr>message_id = 7, chat_id = 1, photo = None\<rparr>
                  ''payment_link_message_traffic''
                  (PaymentUrlKeyboard ''https://pay.example/1'' ''en''
                     (back_callback_of (human_value_of \<lparr>format_g = (\<lambda>x. ''10''), float_str = (\<lambda>x. ''5.0'')\<rparr> (Finite 10)))
                     ''back_to_payment_methods_button''))
           (Raised (PyExn OtherException ''timeout'')),
         HCall (SendMenuWithImage \<lparr>message_id = 7, chat_id = 1, photo = None\<rparr>
                  ''payment_link_message_traffic'' (Some ''menu_subscribe.png'')
                  (PaymentUrlKeyboard ''https://pay.example/1'' ''en''
                     (back_callback_of (human_value_of \<lparr>format_g = (\<lambda>x. ''10''), float_str = (\<lambda>x. ''5.0'')\<rparr> (Finite 10)))
                     ''back_to_payment_methods_button''))
           (Raised (PyExn OtherException ''timeout'')),
         HCall (Answer None False) (Raised (PyExn OtherException ''timeout''))])"
proof -
  let ?wld = "\<lambda>cs::hcall list. if length cs = 1 then Returned (Some ''https://pay.example/1'')
           else Raised (PyExn OtherException ''timeout'')"
  let ?m = "\<lparr>message_id = 7, chat_id = 1, photo = None\<rparr>"
  let ?k = "PaymentUrlKeyboard ''https://pay.example/1'' ''en''
              (back_callback_of (human_value_of \<lparr>format_g = (\<lambda>x. ''10''), float_str = (\<lambda>x. ''5.0'')\<rparr> (Finite 10))) ''back_to_payment_methods_button''"
  let ?tr = "[HCall (CreateInvoice 42 (Finite 10) (Finite 5) ''payment_description_traffic'' ''traffic'')
           (Returned (Some ''https://pay.example/1'')),
         HCall (RenderSubscribeMenu ?m ''payment_link_message_traffic'' ?k)
           (Raised (PyExn OtherException ''timeout'')),
         HCall (SendMenuWithImage ?m ''payment_link_message_traffic'' (Some ''menu_subscribe.png'') ?k)
           (Raised (PyExn OtherException ''timeout'')),
         HCall (Answer None False) (Raised (PyExn OtherException ''timeout''))]"
  have wex: "world_raises_only_exceptions ?wld"
    by (simp add: world_raises_only_exceptions_def is_Exception_def)
  have lex: "\<forall>le. menu_image_if_exists (\<lambda>p. Inr True) ''menu_subscribe.png'' = Inl le
      \<longrightarrow> is_Exception le"
    by (simp add: menu_image_if_exists_def)
  have run: "pay_crypto_callback_handler ?wld (\<lambda>p. Inr True)
       \<lparr>format_g = (\<lambda>x. ''10''), float_str = (\<lambda>x. ''5.0'')\<rparr>
       \<lparr>data = ''pay_crypto:10:5:traffic'', cb_message = Some ?m, from_user_id = 42\<rparr>
       \<lparr>DEFAULT_LANGUAGE = ''en'', DEFAULT_CURRENCY_SYMBOL = ''USD''\<rparr>
       \<lparr>current_language = Some ''en'', i18n_instance = Some (\<lambda>lang key kwargs. key)\<rparr>
       (Some \<lparr>configured = True\<rparr>) [] = (Inr (), ?tr)"
    by (simp add: pay_crypto_callback_handler_def parse_10_5_traffic after_parse_def
        display_payment_link_def menu_image_if_exists_def answer_and_return_def hperform_def
        Let_def is_Exception_def)
  have mem: "HCall (RenderSubscribeMenu ?m ''payment_link_message_traffic'' ?k)
           (Raised (PyExn OtherException ''timeout'')) \<in> set ?tr" by simp
  from display_fallback_once [OF run mem wex lex] wex run show ?thesis by simp
qed

end
